theory Spec2Isabelle
  imports Complex_Main "HOL-Library.Log_Nat"
begin

section \<open>Errors\<close>

text \<open>
  The exceptions that construction and the forward passes of
  \<^verbatim>\<open>stylegan2_network.py\<close> can raise.  \<open>ValueError\<close> carries the message of the
  two \<^verbatim>\<open>raise ValueError(...)\<close> statements of the source (and of the range check of
  \<^verbatim>\<open>nn.Dropout\<close>, and of \<^verbatim>\<open>math.sqrt\<close> on a negative number);
  \<open>ZeroDivisionError\<close> is Python's error for \<^verbatim>\<open>1 / 0.0\<close>; \<open>ShapeError\<close> is the
  \<^verbatim>\<open>RuntimeError\<close> with which the tensor library rejects operands whose shapes do not
  fit an operation (\<^verbatim>\<open>view\<close>, broadcasting, \<^verbatim>\<open>linear\<close>, \<^verbatim>\<open>conv2d\<close>).
\<close>

datatype error =
    ValueError string
  | ZeroDivisionError
  | ShapeError

section \<open>FullyConnectedLayer: construction\<close>

text \<open>
  \<^verbatim>\<open>get_activation_fn\<close> returns one of six functions, selected by name.  The model
  returns a tag naming the selected function (\<open>F_leaky_relu\<close> with its negative slope).
\<close>

datatype act_fn = F_relu | F_leaky_relu real | F_elu | F_gelu | F_swish | F_identity

definition get_activation_fn :: "string \<Rightarrow> error + act_fn" where
  "get_activation_fn activation =
     (if activation = ''relu'' then Inr F_relu
      else if activation = ''leaky_relu'' then Inr (F_leaky_relu (2 / 10))
      else if activation = ''elu'' then Inr F_elu
      else if activation = ''gelu'' then Inr F_gelu
      else if activation = ''swish'' then Inr F_swish
      else if activation = ''linear'' then Inr F_identity
      else Inl (ValueError (''Unsupported activation function: '' @ activation)))"

text \<open>
  \<^verbatim>\<open>reset_parameters\<close> first initialises the \<open>(out_features, in_features)\<close> weight with the
  initialiser selected by name, then, when the layer has a bias, draws the bias from a
  uniform range of half-width \<^verbatim>\<open>1 / math.sqrt(fan_in)\<close>, where \<open>fan_in\<close> is \<open>in_features\<close>.
  Two of these steps divide: \<^verbatim>\<open>nn.init.xavier_uniform_\<close> computes
  \<^verbatim>\<open>math.sqrt(2.0 / float(fan_in + fan_out))\<close>, which raises when both features are zero
  (the other two initialisers return an empty weight as it is), and the bound of the bias
  raises when \<open>fan_in\<close> is zero.  The values drawn are left out of the model; which
  initialiser ran is kept.
\<close>

datatype weight_init = Xavier | Kaiming | Orthogonal

definition reset_parameters :: "nat \<Rightarrow> nat \<Rightarrow> bool \<Rightarrow> string \<Rightarrow> error + weight_init" where
  "reset_parameters in_feat out_feat has_bias winit =
     (case (if winit = ''xavier''
            then (if in_feat + out_feat = 0 then Inl ZeroDivisionError else Inr Xavier)
            else if winit = ''kaiming'' then Inr Kaiming
            else if winit = ''orthogonal'' then Inr Orthogonal
            else Inl (ValueError (''Unsupported weight initialisation: '' @ winit))) of
        Inl e \<Rightarrow> Inl e
      | Inr m \<Rightarrow> if has_bias \<and> in_feat = 0 then Inl ZeroDivisionError else Inr m)"

record FullyConnectedLayer =
  in_features :: nat
  out_features :: nat
  activation :: string
  dropout :: "real option"
  batch_norm :: bool
  layer_norm :: bool
  has_bias :: bool
  initialised_by :: weight_init
  act :: act_fn

text \<open>
  \<^verbatim>\<open>FullyConnectedLayer.__init__\<close>, in the order of the source: the dropout module (whose
  constructor rejects a probability above 1), the two normalisations, the parameters,
  \<^verbatim>\<open>reset_parameters(weight_init)\<close>, and last \<^verbatim>\<open>get_activation_fn(activation)\<close>.
\<close>

definition FullyConnectedLayer_init ::
  "nat \<Rightarrow> nat \<Rightarrow> bool \<Rightarrow> string \<Rightarrow> string \<Rightarrow> real \<Rightarrow> bool \<Rightarrow> bool \<Rightarrow> error + FullyConnectedLayer" where
  "FullyConnectedLayer_init in_feat out_feat bias actname winit rate use_bn use_ln =
     (if rate > 0 \<and> rate > 1
      then Inl (ValueError ''dropout probability has to be between 0 and 1'')
      else
        case reset_parameters in_feat out_feat bias winit of
          Inl e \<Rightarrow> Inl e
        | Inr m \<Rightarrow>
           (case get_activation_fn actname of
              Inl e \<Rightarrow> Inl e
            | Inr f \<Rightarrow>
                Inr \<lparr> in_features = in_feat, out_features = out_feat, activation = actname,
                      dropout = (if rate > 0 then Some rate else None),
                      batch_norm = use_bn, layer_norm = use_ln, has_bias = bias,
                      initialised_by = m, act = f \<rparr>))"

definition supported_activations :: "string list" where
  "supported_activations = [''linear'', ''relu'', ''leaky_relu'', ''elu'', ''gelu'', ''swish'']"

definition supported_weight_inits :: "string list" where
  "supported_weight_inits = [''xavier'', ''kaiming'', ''orthogonal'']"

section \<open>MappingNetwork: construction\<close>

text \<open>
  The loop \<^verbatim>\<open>for i in range(num_layers): layers.append(FullyConnectedLayer(...))\<close>, as a
  recursion over the list of indices; the first layer that fails to construct ends it.
\<close>

fun build_layers :: "nat \<Rightarrow> nat \<Rightarrow> real \<Rightarrow> nat list \<Rightarrow> error + FullyConnectedLayer list" where
  "build_layers z_dim w_dim rate [] = Inr []"
| "build_layers z_dim w_dim rate (i # is) =
     (case FullyConnectedLayer_init (if i = 0 then z_dim else w_dim) w_dim True
             ''leaky_relu'' ''kaiming'' rate True False of
        Inl e \<Rightarrow> Inl e
      | Inr l \<Rightarrow>
         (case build_layers z_dim w_dim rate is of
            Inl e \<Rightarrow> Inl e
          | Inr ls \<Rightarrow> Inr (l # ls)))"

record MappingNetwork =
  embedding_rows :: nat
  embedding_cols :: nat
  net :: "FullyConnectedLayer list"

text \<open>
  \<^verbatim>\<open>MappingNetwork.__init__\<close>.  \<open>num_layers\<close> is a Python integer; \<^verbatim>\<open>range(num_layers)\<close>
  is empty when it is zero or negative.
\<close>

definition MappingNetwork_init :: "nat \<Rightarrow> nat \<Rightarrow> int \<Rightarrow> nat \<Rightarrow> real \<Rightarrow> error + MappingNetwork" where
  "MappingNetwork_init z_dim w_dim num_layers label_dim rate =
     (case build_layers z_dim w_dim rate [0 ..< nat num_layers] of
        Inl e \<Rightarrow> Inl e
      | Inr ls \<Rightarrow> Inr \<lparr> embedding_rows = label_dim, embedding_cols = z_dim, net = ls \<rparr>)"

section \<open>Tensors\<close>

text \<open>
  A tensor is a nested list in row-major order, its entries idealised as real numbers
  (the rounding of the machine's floating point is not modelled).  The extent of an axis
  is the length at that depth; of a well-shaped tensor every sublist at one depth has the
  same length.  A tensor with an empty axis keeps no record of the extents behind it, so
  the properties below are stated for tensors of positive extents.
\<close>

type_synonym mat = "real list list"
type_synonym tensor3 = "real list list list"
type_synonym tensor4 = "real list list list list"
type_synonym tensor5 = "real list list list list list"

definition dim0 :: "'a list \<Rightarrow> nat" where
  "dim0 t = length t"

definition dim1 :: "'a list list \<Rightarrow> nat" where
  "dim1 t = (case t of [] \<Rightarrow> 0 | a # _ \<Rightarrow> dim0 a)"

definition dim2 :: "'a list list list \<Rightarrow> nat" where
  "dim2 t = (case t of [] \<Rightarrow> 0 | a # _ \<Rightarrow> dim1 a)"

definition dim3 :: "'a list list list list \<Rightarrow> nat" where
  "dim3 t = (case t of [] \<Rightarrow> 0 | a # _ \<Rightarrow> dim2 a)"

definition dim4 :: "'a list list list list list \<Rightarrow> nat" where
  "dim4 t = (case t of [] \<Rightarrow> 0 | a # _ \<Rightarrow> dim3 a)"

definition is_vec :: "nat \<Rightarrow> 'a list \<Rightarrow> bool" where
  "is_vec n v = (length v = n)"

definition is_mat :: "nat \<Rightarrow> nat \<Rightarrow> 'a list list \<Rightarrow> bool" where
  "is_mat a b t = (length t = a \<and> list_all (is_vec b) t)"

definition is_t3 :: "nat \<Rightarrow> nat \<Rightarrow> nat \<Rightarrow> 'a list list list \<Rightarrow> bool" where
  "is_t3 a b c t = (length t = a \<and> list_all (is_mat b c) t)"

definition is_t4 :: "nat \<Rightarrow> nat \<Rightarrow> nat \<Rightarrow> nat \<Rightarrow> 'a list list list list \<Rightarrow> bool" where
  "is_t4 a b c d t = (length t = a \<and> list_all (is_t3 b c d) t)"

definition is_t5 :: "nat \<Rightarrow> nat \<Rightarrow> nat \<Rightarrow> nat \<Rightarrow> nat \<Rightarrow> 'a list list list list list \<Rightarrow> bool" where
  "is_t5 a b c d e t = (length t = a \<and> list_all (is_t4 b c d e) t)"

text \<open>Building a tensor from a function of the indices.\<close>

definition tabulate2 :: "nat \<Rightarrow> nat \<Rightarrow> (nat \<Rightarrow> nat \<Rightarrow> 'a) \<Rightarrow> 'a list list" where
  "tabulate2 a b f = map (\<lambda>i. map (\<lambda>j. f i j) [0 ..< b]) [0 ..< a]"

definition tabulate4 ::
  "nat \<Rightarrow> nat \<Rightarrow> nat \<Rightarrow> nat \<Rightarrow> (nat \<Rightarrow> nat \<Rightarrow> nat \<Rightarrow> nat \<Rightarrow> 'a) \<Rightarrow> 'a list list list list" where
  "tabulate4 a b c d f = map (\<lambda>i. map (\<lambda>j. tabulate2 c d (f i j)) [0 ..< b]) [0 ..< a]"

definition tabulate5 ::
  "nat \<Rightarrow> nat \<Rightarrow> nat \<Rightarrow> nat \<Rightarrow> nat \<Rightarrow> (nat \<Rightarrow> nat \<Rightarrow> nat \<Rightarrow> nat \<Rightarrow> nat \<Rightarrow> 'a)
     \<Rightarrow> 'a list list list list list" where
  "tabulate5 a b c d e f = map (\<lambda>i. tabulate4 b c d e (f i)) [0 ..< a]"

text \<open>
  Broadcasting of two extents, as the tensor library does it: equal extents stay, an
  extent of 1 stretches to the other, anything else is rejected.  \<open>bidx\<close> reads a
  stretched axis at index 0.
\<close>

definition bdim :: "nat \<Rightarrow> nat \<Rightarrow> nat option" where
  "bdim m n = (if m = n then Some m else if m = 1 then Some n else if n = 1 then Some m else None)"

definition bidx :: "nat \<Rightarrow> nat \<Rightarrow> nat" where
  "bidx m i = (if m = 1 then 0 else i)"

definition broadcast4 :: "(real \<Rightarrow> real \<Rightarrow> real) \<Rightarrow> tensor4 \<Rightarrow> tensor4 \<Rightarrow> error + tensor4" where
  "broadcast4 f a b =
     (case (bdim (dim0 a) (dim0 b), bdim (dim1 a) (dim1 b),
            bdim (dim2 a) (dim2 b), bdim (dim3 a) (dim3 b)) of
        (Some n0, Some n1, Some n2, Some n3) \<Rightarrow>
          Inr (tabulate4 n0 n1 n2 n3 (\<lambda>i j k l.
                 f (a ! bidx (dim0 a) i ! bidx (dim1 a) j ! bidx (dim2 a) k ! bidx (dim3 a) l)
                   (b ! bidx (dim0 b) i ! bidx (dim1 b) j ! bidx (dim2 b) k ! bidx (dim3 b) l)))
      | _ \<Rightarrow> Inl ShapeError)"

definition broadcast5 :: "(real \<Rightarrow> real \<Rightarrow> real) \<Rightarrow> tensor5 \<Rightarrow> tensor5 \<Rightarrow> error + tensor5" where
  "broadcast5 f a b =
     (case (bdim (dim0 a) (dim0 b), bdim (dim1 a) (dim1 b), bdim (dim2 a) (dim2 b),
            bdim (dim3 a) (dim3 b), bdim (dim4 a) (dim4 b)) of
        (Some n0, Some n1, Some n2, Some n3, Some n4) \<Rightarrow>
          Inr (tabulate5 n0 n1 n2 n3 n4 (\<lambda>i j k l m.
                 f (a ! bidx (dim0 a) i ! bidx (dim1 a) j ! bidx (dim2 a) k
                      ! bidx (dim3 a) l ! bidx (dim4 a) m)
                   (b ! bidx (dim0 b) i ! bidx (dim1 b) j ! bidx (dim2 b) k
                      ! bidx (dim3 b) l ! bidx (dim4 b) m)))
      | _ \<Rightarrow> Inl ShapeError)"

text \<open>
  \<^verbatim>\<open>view\<close> and \<^verbatim>\<open>reshape\<close> reinterpret the row-major sequence of the entries under new
  extents, and are rejected when the number of entries differs.
\<close>

definition flat2 :: "'a list list \<Rightarrow> 'a list" where
  "flat2 t = concat t"

definition flat4 :: "'a list list list list \<Rightarrow> 'a list" where
  "flat4 t = concat (concat (concat t))"

definition flat5 :: "'a list list list list list \<Rightarrow> 'a list" where
  "flat5 t = concat (concat (concat (concat t)))"

definition view4 :: "real list \<Rightarrow> nat \<Rightarrow> nat \<Rightarrow> nat \<Rightarrow> nat \<Rightarrow> error + tensor4" where
  "view4 xs a b c d =
     (if length xs = a * b * c * d
      then Inr (tabulate4 a b c d (\<lambda>i j k l. xs ! (((i * b + j) * c + k) * d + l)))
      else Inl ShapeError)"

definition view5 :: "real list \<Rightarrow> nat \<Rightarrow> nat \<Rightarrow> nat \<Rightarrow> nat \<Rightarrow> nat \<Rightarrow> error + tensor5" where
  "view5 xs a b c d e =
     (if length xs = a * b * c * d * e
      then Inr (tabulate5 a b c d e (\<lambda>i j k l m. xs ! ((((i * b + j) * c + k) * d + l) * e + m)))
      else Inl ShapeError)"

section \<open>NoiseInjection\<close>

text \<open>
  The module holds one parameter, \<^verbatim>\<open>self.weight\<close> of shape \<open>(1, channels, 1, 1)\<close>,
  created as zeros (the field is named \<open>ni_weight\<close> here, to keep it apart from the
  kernel of the convolution).
\<close>

record NoiseInjection =
  ni_weight :: tensor4

definition NoiseInjection_init :: "nat \<Rightarrow> NoiseInjection" where
  "NoiseInjection_init channels = \<lparr> ni_weight = tabulate4 1 channels 1 1 (\<lambda>i j k l. 0) \<rparr>"

text \<open>
  \<^verbatim>\<open>torch.randn(batch, 1, height, width)\<close> draws from the random source; the draws are
  the argument \<open>g\<close>, by position.
\<close>

definition randn :: "(nat \<Rightarrow> nat \<Rightarrow> nat \<Rightarrow> nat \<Rightarrow> real) \<Rightarrow> nat \<Rightarrow> nat \<Rightarrow> nat \<Rightarrow> nat \<Rightarrow> tensor4" where
  "randn g a b c d = tabulate4 a b c d g"

definition NoiseInjection_forward ::
  "NoiseInjection \<Rightarrow> tensor4 \<Rightarrow> tensor4 option \<Rightarrow> (nat \<Rightarrow> nat \<Rightarrow> nat \<Rightarrow> nat \<Rightarrow> real)
     \<Rightarrow> error + tensor4" where
  "NoiseInjection_forward ni x noise g =
     (let noise' = (case noise of
                      None \<Rightarrow> randn g (dim0 x) 1 (dim2 x) (dim3 x)
                    | Some n \<Rightarrow> n)
      in case broadcast4 (*) (ni_weight ni) noise' of
           Inl e \<Rightarrow> Inl e
         | Inr scaled \<Rightarrow> broadcast4 (+) x scaled)"

text \<open>A random source whose every draw is zero.\<close>

definition zero_draws :: "nat \<Rightarrow> nat \<Rightarrow> nat \<Rightarrow> nat \<Rightarrow> real" where
  "zero_draws i j k l = 0"

section \<open>ModulatedConv2d\<close>

record ModulatedConv2d =
  in_channels :: nat
  out_channels :: nat
  kernel_size :: nat
  demodulate :: bool
  up :: int
  down :: int
  padding :: int
  scale :: real
  weight :: tensor4
  modulation :: mat
  noise_injection :: NoiseInjection

text \<open>
  \<^verbatim>\<open>ModulatedConv2d.__init__\<close>.  The arguments are Python integers.  \<^verbatim>\<open>math.sqrt\<close>
  raises on a negative argument and \<^verbatim>\<open>1 / 0.0\<close> raises; \<^verbatim>\<open>torch.randn\<close> and \<^verbatim>\<open>nn.Linear\<close>
  reject a negative extent.  The draws of \<^verbatim>\<open>torch.randn\<close> for the kernel are \<open>gw\<close>, the
  initial entries of the \<open>(in_channels, style_dim)\<close> matrix of \<^verbatim>\<open>nn.Linear\<close> are \<open>gm\<close>.
\<close>

definition ModulatedConv2d_init ::
  "int \<Rightarrow> int \<Rightarrow> int \<Rightarrow> int \<Rightarrow> bool \<Rightarrow> int \<Rightarrow> int \<Rightarrow> int
     \<Rightarrow> (nat \<Rightarrow> nat \<Rightarrow> nat \<Rightarrow> nat \<Rightarrow> real) \<Rightarrow> (nat \<Rightarrow> nat \<Rightarrow> real) \<Rightarrow> error + ModulatedConv2d" where
  "ModulatedConv2d_init in_ch out_ch ksize style_dim demod u d pad gw gm =
     (if in_ch * ksize ^ 2 < 0 then Inl (ValueError ''math domain error'')
      else if in_ch * ksize ^ 2 = 0 then Inl ZeroDivisionError
      else if out_ch < 0 \<or> in_ch < 0 \<or> ksize < 0 then Inl ShapeError
      else if style_dim < 0 then Inl ShapeError
      else Inr \<lparr> in_channels = nat in_ch, out_channels = nat out_ch, kernel_size = nat ksize,
                 demodulate = demod, up = u, down = d, padding = pad,
                 scale = 1 / sqrt (real_of_int (in_ch * ksize ^ 2)),
                 weight = randn gw (nat out_ch) (nat in_ch) (nat ksize) (nat ksize),
                 modulation = tabulate2 (nat in_ch) (nat style_dim) gm,
                 noise_injection = NoiseInjection_init (nat out_ch) \<rparr>)"

text \<open>
  The shapes of the parameters of a constructed layer, for a style of dimension \<open>sd\<close>;
  gradient updates change the entries and keep the shapes.
\<close>

definition wf_ModulatedConv2d :: "ModulatedConv2d \<Rightarrow> nat \<Rightarrow> bool" where
  "wf_ModulatedConv2d L sd =
     (0 < in_channels L \<and> 0 < kernel_size L
      \<and> is_t4 (out_channels L) (in_channels L) (kernel_size L) (kernel_size L) (weight L)
      \<and> is_mat (in_channels L) sd (modulation L)
      \<and> is_t4 1 (out_channels L) 1 1 (ni_weight (noise_injection L)))"

text \<open>
  \<^verbatim>\<open>F.linear(input, W)\<close> without bias, the forward pass of \<^verbatim>\<open>nn.Linear(..., bias=False)\<close>:
  \<open>out[n][c] = sum over d of input[n][d] * W[c][d]\<close>; rejected when the last extents differ.
\<close>

definition linear :: "mat \<Rightarrow> mat \<Rightarrow> error + mat" where
  "linear inp W =
     (if dim1 inp = dim1 W
      then Inr (tabulate2 (dim0 inp) (dim0 W)
                  (\<lambda>n c. sum_list (map (\<lambda>d. inp ! n ! d * W ! c ! d) [0 ..< dim1 W])))
      else Inl ShapeError)"

definition scalar_mul5 :: "real \<Rightarrow> tensor5 \<Rightarrow> tensor5" where
  "scalar_mul5 c t = map (map (map (map (map (\<lambda>v. c * v))))) t"

definition unsqueeze0 :: "'a list \<Rightarrow> 'a list list" where
  "unsqueeze0 t = [t]"

definition unsqueeze1 :: "'a list list \<Rightarrow> 'a list list list" where
  "unsqueeze1 t = map (\<lambda>s. [s]) t"

text \<open>
  Lines 247 to 253 of \<^verbatim>\<open>forward\<close>: the style is projected to the input channels, viewed
  as \<open>(batch, in_channels, 1, 1)\<close> with the extents read off \<open>x\<close>, and multiplied into the
  scaled base kernel by broadcasting.
\<close>

definition modulated_weight :: "ModulatedConv2d \<Rightarrow> tensor4 \<Rightarrow> mat \<Rightarrow> error + tensor5" where
  "modulated_weight L x style =
     (let batch = dim0 x; in_ch = dim1 x in
      case linear style (modulation L) of
        Inl e \<Rightarrow> Inl e
      | Inr m \<Rightarrow>
         (case view4 (flat2 m) batch in_ch 1 1 of
            Inl e \<Rightarrow> Inl e
          | Inr style' \<Rightarrow>
              broadcast5 (*) (scalar_mul5 (scale L) (unsqueeze0 (weight L))) (unsqueeze1 style')))"

text \<open>The entry \<open>(n, c)\<close> of the projected style, as \<open>linear\<close> computes it.\<close>

definition style_proj :: "ModulatedConv2d \<Rightarrow> nat \<Rightarrow> mat \<Rightarrow> nat \<Rightarrow> nat \<Rightarrow> real" where
  "style_proj L sd style n c = sum_list (map (\<lambda>d. style ! n ! d * modulation L ! c ! d) [0 ..< sd])"

text \<open>
  Lines 256 to 260: \<^verbatim>\<open>weight.pow(2).sum([2, 3, 4])\<close> is the sum of the squares of each
  (sample, output channel) slice; \<open>sumsq\<close> is that sum for one slice.
\<close>

definition pow2 :: "tensor5 \<Rightarrow> tensor5" where
  "pow2 t = map (map (map (map (map (\<lambda>v. v ^ 2))))) t"

definition sum234 :: "tensor5 \<Rightarrow> mat" where
  "sum234 t = map (map (\<lambda>s. sum_list (concat (concat s)))) t"

definition rsqrt :: "real \<Rightarrow> real" where
  "rsqrt v = 1 / sqrt v"

definition sumsq :: "tensor3 \<Rightarrow> real" where
  "sumsq s = sum_list (map (\<lambda>v. v ^ 2) (concat (concat s)))"

definition demodulated :: "ModulatedConv2d \<Rightarrow> nat \<Rightarrow> tensor5 \<Rightarrow> error + tensor5" where
  "demodulated L batch wt =
     (let demod = map (map (\<lambda>e. rsqrt (e + 1 / 10 ^ 8))) (sum234 (pow2 wt)) in
      case view5 (flat2 demod) batch (out_channels L) 1 1 1 of
        Inl e \<Rightarrow> Inl e
      | Inr d \<Rightarrow> broadcast5 (*) wt d)"

text \<open>Lines 247 to 260: the per-sample kernel that the convolution is run with.\<close>

definition sample_kernels :: "ModulatedConv2d \<Rightarrow> tensor4 \<Rightarrow> mat \<Rightarrow> error + tensor5" where
  "sample_kernels L x style =
     (case modulated_weight L x style of
        Inl e \<Rightarrow> Inl e
      | Inr wt \<Rightarrow> if demodulate L then demodulated L (dim0 x) wt else Inr wt)"

text \<open>
  Rounding to the nearest double-precision number, ties to even, for a positive number
  in the normal range: \<open>binade q\<close> is the exponent \<open>e\<close> with \<open>2^e \<le> q < 2^(e+1)\<close>, and the
  53-bit significand is \<open>q / 2^(e - 52)\<close> rounded to an integer.
\<close>

definition binade :: "real \<Rightarrow> int" where
  "binade q = (if 1 \<le> q then bitlen \<lfloor>q\<rfloor> - 1 else - bitlen (\<lceil>1 / q\<rceil> - 1))"

definition round_half_even :: "real \<Rightarrow> int" where
  "round_half_even m =
     (let f = \<lfloor>m\<rfloor>; r = m - of_int f
      in if r < 1 / 2 then f else if 1 / 2 < r then f + 1 else if even f then f else f + 1)"

definition round_double :: "real \<Rightarrow> real" where
  "round_double q =
     of_int (round_half_even (q * 2 powi (52 - binade q))) * 2 powi (binade q - 52)"

text \<open>
  Lines 269 to 272.  \<^verbatim>\<open>1 / self.up\<close> is the quotient of two integers rounded to a double,
  \<^verbatim>\<open>1 / stride\<close> is the reciprocal of that double, rounded again, and \<^verbatim>\<open>int\<close> truncates
  it.  The two roundings do not always cancel: for \<open>up = 93\<close> the result is 92.
\<close>

definition conv_stride :: "ModulatedConv2d \<Rightarrow> int" where
  "conv_stride L =
     (if up L > 1 then \<lfloor>round_double (1 / round_double (1 / real_of_int (up L)))\<rfloor>
      else down L)"

definition conv_padding :: "ModulatedConv2d \<Rightarrow> int" where
  "conv_padding L = (if padding L = 0 then int (kernel_size L div 2) else padding L)"

text \<open>
  \<^verbatim>\<open>F.conv2d(x, w, padding=p, stride=s, groups=G)\<close> on an input \<open>(B, C, H, W)\<close> and a kernel
  \<open>(O, C / G, kh, kw)\<close>: zero padding of \<open>p\<close> on each side, output extents
  \<open>(H + 2p - kh) div s + 1\<close> and \<open>(W + 2p - kw) div s + 1\<close>; the output channel \<open>oc\<close> belongs
  to group \<open>oc div (O / G)\<close> and reads only the \<open>C / G\<close> input channels of that group.
\<close>

definition padded :: "tensor4 \<Rightarrow> nat \<Rightarrow> nat \<Rightarrow> nat \<Rightarrow> nat \<Rightarrow> nat \<Rightarrow> real" where
  "padded x p b ch r q =
     (if p \<le> r \<and> r < dim2 x + p \<and> p \<le> q \<and> q < dim3 x + p
      then x ! b ! ch ! (r - p) ! (q - p) else 0)"

definition conv2d :: "tensor4 \<Rightarrow> tensor4 \<Rightarrow> int \<Rightarrow> int \<Rightarrow> nat \<Rightarrow> error + tensor4" where
  "conv2d x w p s G =
     (if G = 0 \<or> s \<le> 0 \<or> p < 0 \<or> dim1 x \<noteq> dim1 w * G \<or> dim0 w mod G \<noteq> 0
         \<or> dim2 x + 2 * nat p < dim2 w \<or> dim3 x + 2 * nat p < dim3 w
      then Inl ShapeError
      else Inr (tabulate4 (dim0 x) (dim0 w)
                  ((dim2 x + 2 * nat p - dim2 w) div nat s + 1)
                  ((dim3 x + 2 * nat p - dim3 w) div nat s + 1)
                  (\<lambda>b oc i j.
                     sum_list (map (\<lambda>c.
                       sum_list (map (\<lambda>u.
                         sum_list (map (\<lambda>v.
                           padded x (nat p) b (oc div (dim0 w div G) * dim1 w + c)
                                  (i * nat s + u) (j * nat s + v)
                             * w ! oc ! c ! u ! v)
                           [0 ..< dim3 w]))
                         [0 ..< dim2 w]))
                       [0 ..< dim1 w]))))"

text \<open>
  The conditions on padding, stride and extents under which \<open>conv2d\<close> accepts its
  arguments, and the output extent along one axis.
\<close>

definition conv_ok :: "int \<Rightarrow> int \<Rightarrow> nat \<Rightarrow> nat \<Rightarrow> nat \<Rightarrow> nat \<Rightarrow> bool" where
  "conv_ok p s H W kh kw = (0 < s \<and> 0 \<le> p \<and> kh \<le> H + 2 * nat p \<and> kw \<le> W + 2 * nat p)"

definition out_extent :: "nat \<Rightarrow> int \<Rightarrow> int \<Rightarrow> nat \<Rightarrow> nat" where
  "out_extent H p s k = (H + 2 * nat p - k) div nat s + 1"

text \<open>
  The output of the zero-padded, strided cross-correlation of one sample \<open>xs\<close> (of
  \<open>Ci\<close> channels of \<open>H\<close> by \<open>W\<close>) with one kernel \<open>ws\<close> (\<open>Ci\<close> channels of \<open>k\<close> by \<open>k\<close>) at
  the position \<open>(i, j)\<close>.
\<close>

definition conv_at ::
  "tensor3 \<Rightarrow> tensor3 \<Rightarrow> nat \<Rightarrow> nat \<Rightarrow> nat \<Rightarrow> nat \<Rightarrow> nat \<Rightarrow> nat \<Rightarrow> nat \<Rightarrow> nat \<Rightarrow> real" where
  "conv_at xs ws Ci k H W p s i j =
     sum_list (map (\<lambda>c.
       sum_list (map (\<lambda>u.
         sum_list (map (\<lambda>v.
           (if p \<le> i * s + u \<and> i * s + u < H + p \<and> p \<le> j * s + v \<and> j * s + v < W + p
            then xs ! c ! (i * s + u - p) ! (j * s + v - p) else 0) * ws ! c ! u ! v)
           [0 ..< k]))
         [0 ..< k]))
       [0 ..< Ci])"

text \<open>
  Lines 262 to 280: the batch is folded into the channels of the kernel and of the input,
  one convolution with \<open>groups = batch\<close> is run, and the output is unfolded.
\<close>

definition grouped_conv2d :: "nat \<Rightarrow> nat \<Rightarrow> tensor4 \<Rightarrow> tensor5 \<Rightarrow> int \<Rightarrow> int \<Rightarrow> error + tensor4" where
  "grouped_conv2d out_ch ksize x wt pad stride =
     (let batch = dim0 x; in_ch = dim1 x; height = dim2 x; width = dim3 x in
      case view4 (flat5 wt) (batch * out_ch) in_ch ksize ksize of
        Inl e \<Rightarrow> Inl e
      | Inr w4 \<Rightarrow>
         (case view4 (flat4 x) 1 (batch * in_ch) height width of
            Inl e \<Rightarrow> Inl e
          | Inr x1 \<Rightarrow>
             (case conv2d x1 w4 pad stride batch of
                Inl e \<Rightarrow> Inl e
              | Inr out \<Rightarrow> view4 (flat4 out) batch out_ch (dim2 out) (dim3 out))))"

definition ModulatedConv2d_forward ::
  "ModulatedConv2d \<Rightarrow> tensor4 \<Rightarrow> mat \<Rightarrow> tensor4 option \<Rightarrow> (nat \<Rightarrow> nat \<Rightarrow> nat \<Rightarrow> nat \<Rightarrow> real)
     \<Rightarrow> error + tensor4" where
  "ModulatedConv2d_forward L x style noise g =
     (case sample_kernels L x style of
        Inl e \<Rightarrow> Inl e
      | Inr wt \<Rightarrow>
         (case grouped_conv2d (out_channels L) (kernel_size L) x wt
                 (conv_padding L) (conv_stride L) of
            Inl e \<Rightarrow> Inl e
          | Inr out \<Rightarrow> NoiseInjection_forward (noise_injection L) out noise g))"

text \<open>
  The reference the grouped convolution is compared with: each sample convolved on its own,
  as a batch of one, with its own kernel slice and a single group.
\<close>

fun per_sample_conv2d :: "tensor4 \<Rightarrow> tensor5 \<Rightarrow> int \<Rightarrow> int \<Rightarrow> error + tensor4" where
  "per_sample_conv2d [] [] pad stride = Inr []"
| "per_sample_conv2d (xi # xs) (wi # ws) pad stride =
     (case conv2d [xi] wi pad stride 1 of
        Inl e \<Rightarrow> Inl e
      | Inr oi \<Rightarrow>
         (case per_sample_conv2d xs ws pad stride of
            Inl e \<Rightarrow> Inl e
          | Inr os \<Rightarrow> Inr (oi ! 0 # os)))"
| "per_sample_conv2d _ _ pad stride = Inl ShapeError"

section \<open>Extents and indexing of well-shaped tensors\<close>

lemma is_mat_nth: "is_mat a b t \<Longrightarrow> i < a \<Longrightarrow> length (t ! i) = b"
  by (simp add: is_mat_def is_vec_def list_all_length)

lemma is_t3_nth: "is_t3 a b c t \<Longrightarrow> i < a \<Longrightarrow> is_mat b c (t ! i)"
  by (simp add: is_t3_def list_all_length)

lemma is_t4_nth: "is_t4 a b c d t \<Longrightarrow> i < a \<Longrightarrow> is_t3 b c d (t ! i)"
  by (simp add: is_t4_def list_all_length)

lemma is_t5_nth: "is_t5 a b c d e t \<Longrightarrow> i < a \<Longrightarrow> is_t4 b c d e (t ! i)"
  by (simp add: is_t5_def list_all_length)

lemma dim1_nth0: "0 < length t \<Longrightarrow> dim1 t = dim0 (t ! 0)"
  by (cases t) (simp_all add: dim1_def)

lemma dim2_nth0: "0 < length t \<Longrightarrow> dim2 t = dim1 (t ! 0)"
  by (cases t) (simp_all add: dim2_def)

lemma dim3_nth0: "0 < length t \<Longrightarrow> dim3 t = dim2 (t ! 0)"
  by (cases t) (simp_all add: dim3_def)

lemma dim4_nth0: "0 < length t \<Longrightarrow> dim4 t = dim3 (t ! 0)"
  by (cases t) (simp_all add: dim4_def)

lemma is_mat_dim0: "is_mat a b t \<Longrightarrow> dim0 t = a"
  by (simp add: is_mat_def dim0_def)

lemma is_mat_dim1: "is_mat a b t \<Longrightarrow> 0 < a \<Longrightarrow> dim1 t = b"
  using is_mat_nth[of a b t 0] by (simp add: dim1_nth0 dim0_def is_mat_def)

lemma is_t3_dim0: "is_t3 a b c t \<Longrightarrow> dim0 t = a"
  by (simp add: is_t3_def dim0_def)

lemma is_t3_dim1: "is_t3 a b c t \<Longrightarrow> 0 < a \<Longrightarrow> dim1 t = b"
  using is_t3_nth[of a b c t 0] is_mat_dim0[of b c "t ! 0"]
  by (simp add: dim1_nth0 is_t3_def)

lemma is_t3_dim2: "is_t3 a b c t \<Longrightarrow> 0 < a \<Longrightarrow> 0 < b \<Longrightarrow> dim2 t = c"
  using is_t3_nth[of a b c t 0] is_mat_dim1[of b c "t ! 0"]
  by (simp add: dim2_nth0 is_t3_def)

lemma is_t4_dim0: "is_t4 a b c d t \<Longrightarrow> dim0 t = a"
  by (simp add: is_t4_def dim0_def)

lemma is_t4_dim1: "is_t4 a b c d t \<Longrightarrow> 0 < a \<Longrightarrow> dim1 t = b"
  using is_t4_nth[of a b c d t 0] is_t3_dim0[of b c d "t ! 0"]
  by (simp add: dim1_nth0 is_t4_def)

lemma is_t4_dim2: "is_t4 a b c d t \<Longrightarrow> 0 < a \<Longrightarrow> 0 < b \<Longrightarrow> dim2 t = c"
  using is_t4_nth[of a b c d t 0] is_t3_dim1[of b c d "t ! 0"]
  by (simp add: dim2_nth0 is_t4_def)

lemma is_t4_dim3: "is_t4 a b c d t \<Longrightarrow> 0 < a \<Longrightarrow> 0 < b \<Longrightarrow> 0 < c \<Longrightarrow> dim3 t = d"
  using is_t4_nth[of a b c d t 0] is_t3_dim2[of b c d "t ! 0"]
  by (simp add: dim3_nth0 is_t4_def)

lemma is_t5_dim0: "is_t5 a b c d e t \<Longrightarrow> dim0 t = a"
  by (simp add: is_t5_def dim0_def)

lemma is_t5_dim1: "is_t5 a b c d e t \<Longrightarrow> 0 < a \<Longrightarrow> dim1 t = b"
  using is_t5_nth[of a b c d e t 0] is_t4_dim0[of b c d e "t ! 0"]
  by (simp add: dim1_nth0 is_t5_def)

lemma is_t5_dim2: "is_t5 a b c d e t \<Longrightarrow> 0 < a \<Longrightarrow> 0 < b \<Longrightarrow> dim2 t = c"
  using is_t5_nth[of a b c d e t 0] is_t4_dim1[of b c d e "t ! 0"]
  by (simp add: dim2_nth0 is_t5_def)

lemma is_t5_dim3: "is_t5 a b c d e t \<Longrightarrow> 0 < a \<Longrightarrow> 0 < b \<Longrightarrow> 0 < c \<Longrightarrow> dim3 t = d"
  using is_t5_nth[of a b c d e t 0] is_t4_dim2[of b c d e "t ! 0"]
  by (simp add: dim3_nth0 is_t5_def)

lemma is_t5_dim4:
  "is_t5 a b c d e t \<Longrightarrow> 0 < a \<Longrightarrow> 0 < b \<Longrightarrow> 0 < c \<Longrightarrow> 0 < d \<Longrightarrow> dim4 t = e"
  using is_t5_nth[of a b c d e t 0] is_t4_dim3[of b c d e "t ! 0"]
  by (simp add: dim4_nth0 is_t5_def)

lemma is_mat_tabulate2: "is_mat a b (tabulate2 a b f)"
  by (simp add: is_mat_def is_vec_def tabulate2_def list_all_length)

lemma is_t4_tabulate4: "is_t4 a b c d (tabulate4 a b c d f)"
  by (simp add: is_t4_def is_t3_def tabulate4_def list_all_length is_mat_tabulate2)

lemma is_t5_tabulate5: "is_t5 a b c d e (tabulate5 a b c d e f)"
  by (simp add: is_t5_def tabulate5_def list_all_length is_t4_tabulate4)

lemma nth_tabulate2: "i < a \<Longrightarrow> j < b \<Longrightarrow> tabulate2 a b f ! i ! j = f i j"
  by (simp add: tabulate2_def)

lemma nth_tabulate4:
  "i < a \<Longrightarrow> j < b \<Longrightarrow> k < c \<Longrightarrow> l < d \<Longrightarrow> tabulate4 a b c d f ! i ! j ! k ! l = f i j k l"
  by (simp add: tabulate4_def nth_tabulate2)

lemma nth_tabulate5:
  "i < a \<Longrightarrow> j < b \<Longrightarrow> k < c \<Longrightarrow> l < d \<Longrightarrow> m < e \<Longrightarrow>
   tabulate5 a b c d e f ! i ! j ! k ! l ! m = f i j k l m"
  by (simp add: tabulate5_def nth_tabulate4)

lemma tabulate2_cong:
  "(\<And>i j. i < a \<Longrightarrow> j < b \<Longrightarrow> f i j = g i j) \<Longrightarrow> tabulate2 a b f = tabulate2 a b g"
  by (simp add: tabulate2_def)

lemma tabulate4_cong:
  "(\<And>i j k l. i < a \<Longrightarrow> j < b \<Longrightarrow> k < c \<Longrightarrow> l < d \<Longrightarrow> f i j k l = g i j k l) \<Longrightarrow>
   tabulate4 a b c d f = tabulate4 a b c d g"
  by (auto simp: tabulate4_def intro!: tabulate2_cong)

lemma tabulate5_cong:
  "(\<And>i j k l m. i < a \<Longrightarrow> j < b \<Longrightarrow> k < c \<Longrightarrow> l < d \<Longrightarrow> m < e \<Longrightarrow> f i j k l m = g i j k l m) \<Longrightarrow>
   tabulate5 a b c d e f = tabulate5 a b c d e g"
  by (auto simp: tabulate5_def intro!: tabulate4_cong)

lemma tabulate2_nth: "is_mat a b t \<Longrightarrow> tabulate2 a b (\<lambda>i j. t ! i ! j) = t"
proof (rule nth_equalityI)
  assume h: "is_mat a b t"
  show "length (tabulate2 a b (\<lambda>i j. t ! i ! j)) = length t"
    using h by (simp add: tabulate2_def is_mat_def)
  fix i assume "i < length (tabulate2 a b (\<lambda>i j. t ! i ! j))"
  then have i: "i < a" by (simp add: tabulate2_def)
  then have "length (t ! i) = b" using h by (rule is_mat_nth[rotated])
  then have "map (\<lambda>j. t ! i ! j) [0 ..< b] = t ! i"
    using map_nth[of "t ! i"] by simp
  then show "tabulate2 a b (\<lambda>i j. t ! i ! j) ! i = t ! i"
    using i by (simp add: tabulate2_def)
qed

lemma tabulate4_nth: "is_t4 a b c d t \<Longrightarrow> tabulate4 a b c d (\<lambda>i j k l. t ! i ! j ! k ! l) = t"
proof (rule nth_equalityI)
  assume h: "is_t4 a b c d t"
  show "length (tabulate4 a b c d (\<lambda>i j k l. t ! i ! j ! k ! l)) = length t"
    using h by (simp add: tabulate4_def is_t4_def)
  fix i assume "i < length (tabulate4 a b c d (\<lambda>i j k l. t ! i ! j ! k ! l))"
  then have i: "i < a" by (simp add: tabulate4_def)
  have t3: "is_t3 b c d (t ! i)" using h i by (rule is_t4_nth)
  have "map (\<lambda>j. tabulate2 c d (\<lambda>k l. t ! i ! j ! k ! l)) [0 ..< b] = t ! i"
  proof (rule nth_equalityI)
    show "length (map (\<lambda>j. tabulate2 c d (\<lambda>k l. t ! i ! j ! k ! l)) [0 ..< b]) = length (t ! i)"
      using t3 by (simp add: is_t3_def)
    fix j assume "j < length (map (\<lambda>j. tabulate2 c d (\<lambda>k l. t ! i ! j ! k ! l)) [0 ..< b])"
    then have j: "j < b" by simp
    have "is_mat c d (t ! i ! j)" using t3 j by (rule is_t3_nth)
    then have "tabulate2 c d (\<lambda>k l. t ! i ! j ! k ! l) = t ! i ! j" by (rule tabulate2_nth)
    then show "map (\<lambda>j. tabulate2 c d (\<lambda>k l. t ! i ! j ! k ! l)) [0 ..< b] ! j = t ! i ! j"
      using j by simp
  qed
  then show "tabulate4 a b c d (\<lambda>i j k l. t ! i ! j ! k ! l) ! i = t ! i"
    using i by (simp add: tabulate4_def)
qed

lemma bidx_lt: "i < m \<Longrightarrow> bidx m i = i"
  by (simp add: bidx_def)

lemma bidx_one: "bidx (Suc 0) i = 0"
  by (simp add: bidx_def)

lemma bdim_same: "bdim m m = Some m"
  by (simp add: bdim_def)

lemma bdim_one_left: "bdim (Suc 0) m = Some m"
  by (simp add: bdim_def)

lemma bdim_one_right: "bdim m (Suc 0) = Some m"
  by (simp add: bdim_def)

lemma broadcast4_shaped:
  assumes "is_t4 a0 a1 a2 a3 a" "is_t4 b0 b1 b2 b3 b"
    and "0 < a0" "0 < a1" "0 < a2" "0 < b0" "0 < b1" "0 < b2"
    and "bdim a0 b0 = Some n0" "bdim a1 b1 = Some n1" "bdim a2 b2 = Some n2" "bdim a3 b3 = Some n3"
  shows "broadcast4 f a b =
     Inr (tabulate4 n0 n1 n2 n3 (\<lambda>i j k l.
            f (a ! bidx a0 i ! bidx a1 j ! bidx a2 k ! bidx a3 l)
              (b ! bidx b0 i ! bidx b1 j ! bidx b2 k ! bidx b3 l)))"
  using assms
  by (simp add: broadcast4_def is_t4_dim0 is_t4_dim1 is_t4_dim2 is_t4_dim3)

lemma NoiseInjection_forward_Some:
  assumes x: "is_t4 N C H W x" and n: "is_t4 N 1 H W n" and w: "is_t4 1 C 1 1 (ni_weight ni)"
    and pos: "0 < N" "0 < C" "0 < H" "0 < W"
  shows "NoiseInjection_forward ni x (Some n) g =
     Inr (tabulate4 N C H W (\<lambda>i c h w. x ! i ! c ! h ! w + ni_weight ni ! 0 ! c ! 0 ! 0 * n ! i ! 0 ! h ! w))"
proof -
  let ?s = "tabulate4 N C H W (\<lambda>i j k l.
            (ni_weight ni ! bidx 1 i ! bidx C j ! bidx 1 k ! bidx 1 l) *
              (n ! bidx N i ! bidx 1 j ! bidx H k ! bidx W l))"
  have s: "broadcast4 (*) (ni_weight ni) n = Inr ?s"
    using broadcast4_shaped[OF w n, of N C H W "(*)"] pos
    by (simp add: bdim_one_left bdim_one_right)
  have st: "is_t4 N C H W ?s" by (rule is_t4_tabulate4)
  have "broadcast4 (+) x ?s = Inr (tabulate4 N C H W (\<lambda>i j k l.
            (x ! bidx N i ! bidx C j ! bidx H k ! bidx W l) +
              (?s ! bidx N i ! bidx C j ! bidx H k ! bidx W l)))"
    using broadcast4_shaped[OF x st, of N C H W "(+)"] pos
    by (simp add: bdim_same)
  also have "tabulate4 N C H W (\<lambda>i j k l.
            (x ! bidx N i ! bidx C j ! bidx H k ! bidx W l) +
              (?s ! bidx N i ! bidx C j ! bidx H k ! bidx W l))
     = tabulate4 N C H W (\<lambda>i c h w. x ! i ! c ! h ! w + ni_weight ni ! 0 ! c ! 0 ! 0 * n ! i ! 0 ! h ! w)"
    by (rule tabulate4_cong) (simp add: bidx_lt bidx_one nth_tabulate4)
  finally show ?thesis using s by (simp add: NoiseInjection_forward_def)
qed

lemma NoiseInjection_forward_None:
  assumes x: "is_t4 N C H W x" and pos: "0 < N" "0 < C" "0 < H"
  shows "NoiseInjection_forward ni x None g = NoiseInjection_forward ni x (Some (randn g N 1 H W)) g"
  using assms
  by (simp add: NoiseInjection_forward_def is_t4_dim0 is_t4_dim2 is_t4_dim3)

lemma idx_bound: "i < a \<Longrightarrow> j < b \<Longrightarrow> i * b + j < a * (b::nat)"
proof -
  assume i: "i < a" and j: "j < b"
  have "i * b + j < i * b + b" using j by simp
  also have "\<dots> = Suc i * b" by simp
  also have "\<dots> \<le> a * b" using i by (intro mult_le_mono1) simp
  finally show ?thesis .
qed

lemma concat_uniform_length: "is_mat a b t \<Longrightarrow> length (concat t) = a * b"
  by (induction t arbitrary: a) (auto simp: is_mat_def is_vec_def)

lemma concat_uniform_nth:
  "is_mat a b t \<Longrightarrow> i < a \<Longrightarrow> j < b \<Longrightarrow> concat t ! (i * b + j) = t ! i ! j"
proof (induction t arbitrary: a i)
  case Nil
  then show ?case by (simp add: is_mat_def)
next
  case (Cons r t)
  from Cons.prems have r: "length r = b" and t: "is_mat (length t) b t" and a: "a = Suc (length t)"
    by (auto simp: is_mat_def is_vec_def)
  show ?case
  proof (cases i)
    case 0
    then show ?thesis using r Cons.prems by (simp add: nth_append)
  next
    case (Suc i')
    then have "i' < length t" using Cons.prems a by simp
    then have "concat t ! (i' * b + j) = t ! i' ! j"
      using Cons.IH[OF t] Cons.prems by simp
    then show ?thesis using Suc r by (simp add: nth_append add.assoc)
  qed
qed

lemma list_all_concat: "list_all (list_all P) t \<Longrightarrow> list_all P (concat t)"
  by (induction t) auto

lemma is_mat_as_rows: "is_mat a b t = (length t = a \<and> list_all (\<lambda>r. length r = b) t)"
  by (simp add: is_mat_def is_vec_def[abs_def])

lemma is_t3_concat: "is_t3 a b c t \<Longrightarrow> is_mat (a * b) c (concat t)"
proof -
  assume h: "is_t3 a b c t"
  then have m: "is_mat a b t"
    by (auto simp: is_t3_def is_mat_def is_vec_def list_all_iff)
  have "list_all (list_all (is_vec c)) t"
    using h by (auto simp: is_t3_def is_mat_def list_all_iff)
  then have "list_all (is_vec c) (concat t)" by (rule list_all_concat)
  then show ?thesis using concat_uniform_length[OF m] by (simp add: is_mat_def)
qed

lemma is_t4_concat: "is_t4 a b c d t \<Longrightarrow> is_t3 (a * b) c d (concat t)"
proof -
  assume h: "is_t4 a b c d t"
  then have m: "is_mat a b t"
    by (auto simp: is_t4_def is_t3_def is_mat_def is_vec_def list_all_iff)
  have "list_all (list_all (is_mat c d)) t"
    using h by (auto simp: is_t4_def is_t3_def list_all_iff)
  then have "list_all (is_mat c d) (concat t)" by (rule list_all_concat)
  then show ?thesis using concat_uniform_length[OF m] by (simp add: is_t3_def)
qed

lemma is_t5_concat: "is_t5 a b c d e t \<Longrightarrow> is_t4 (a * b) c d e (concat t)"
proof -
  assume h: "is_t5 a b c d e t"
  then have m: "is_mat a b t"
    by (auto simp: is_t5_def is_t4_def is_mat_def is_vec_def list_all_iff)
  have "list_all (list_all (is_t3 c d e)) t"
    using h by (auto simp: is_t5_def is_t4_def list_all_iff)
  then have "list_all (is_t3 c d e) (concat t)" by (rule list_all_concat)
  then show ?thesis using concat_uniform_length[OF m] by (simp add: is_t4_def)
qed

lemma is_t3_is_mat: "is_t3 a b c t \<Longrightarrow> is_mat a b t"
  by (auto simp: is_t3_def is_mat_def is_vec_def list_all_iff)

lemma is_t4_is_mat: "is_t4 a b c d t \<Longrightarrow> is_mat a b t"
  by (auto simp: is_t4_def is_t3_def is_mat_def is_vec_def list_all_iff)

lemma is_t5_is_mat: "is_t5 a b c d e t \<Longrightarrow> is_mat a b t"
  by (auto simp: is_t5_def is_t4_def is_mat_def is_vec_def list_all_iff)

lemma flat2_length: "is_mat a b t \<Longrightarrow> length (flat2 t) = a * b"
  by (simp add: flat2_def concat_uniform_length)

lemma flat2_nth: "is_mat a b t \<Longrightarrow> i < a \<Longrightarrow> j < b \<Longrightarrow> flat2 t ! (i * b + j) = t ! i ! j"
  by (simp add: flat2_def concat_uniform_nth)

lemma flat4_length: "is_t4 a b c d t \<Longrightarrow> length (flat4 t) = a * b * c * d"
  using concat_uniform_length[OF is_t3_concat[OF is_t4_concat]]
  by (simp add: flat4_def)

lemma flat4_nth:
  assumes t: "is_t4 a b c d t" and "i < a" "j < b" "k < c" "l < d"
  shows "flat4 t ! (((i * b + j) * c + k) * d + l) = t ! i ! j ! k ! l"
proof -
  have ij: "i * b + j < a * b" using assms by (simp add: idx_bound)
  then have ijk: "(i * b + j) * c + k < a * b * c" using assms by (simp add: idx_bound)
  have "flat4 t ! (((i * b + j) * c + k) * d + l)
        = concat (concat t) ! ((i * b + j) * c + k) ! l"
    using concat_uniform_nth[OF is_t3_concat[OF is_t4_concat[OF t]] ijk \<open>l < d\<close>]
    by (simp add: flat4_def)
  also have "\<dots> = concat t ! (i * b + j) ! k ! l"
    using concat_uniform_nth[OF is_t3_is_mat[OF is_t4_concat[OF t]] ij \<open>k < c\<close>] by simp
  also have "\<dots> = t ! i ! j ! k ! l"
    using concat_uniform_nth[OF is_t4_is_mat[OF t] \<open>i < a\<close> \<open>j < b\<close>] by simp
  finally show ?thesis .
qed

lemma flat5_length: "is_t5 a b c d e t \<Longrightarrow> length (flat5 t) = a * b * c * d * e"
  using flat4_length[OF is_t5_concat] by (simp add: flat5_def flat4_def)

lemma flat5_nth:
  assumes t: "is_t5 a b c d e t" and "i < a" "j < b" "k < c" "l < d" "m < e"
  shows "flat5 t ! ((((i * b + j) * c + k) * d + l) * e + m) = t ! i ! j ! k ! l ! m"
proof -
  have ij: "i * b + j < a * b" using assms by (simp add: idx_bound)
  have "flat5 t ! ((((i * b + j) * c + k) * d + l) * e + m)
        = concat t ! (i * b + j) ! k ! l ! m"
    using flat4_nth[OF is_t5_concat[OF t] ij \<open>k < c\<close> \<open>l < d\<close> \<open>m < e\<close>]
    by (simp add: flat5_def flat4_def)
  also have "\<dots> = t ! i ! j ! k ! l ! m"
    using concat_uniform_nth[OF is_t5_is_mat[OF t] \<open>i < a\<close> \<open>j < b\<close>] by simp
  finally show ?thesis .
qed

lemma tabulate5_nth:
  "is_t5 a b c d e t \<Longrightarrow> tabulate5 a b c d e (\<lambda>i j k l m. t ! i ! j ! k ! l ! m) = t"
proof (rule nth_equalityI)
  assume h: "is_t5 a b c d e t"
  show "length (tabulate5 a b c d e (\<lambda>i j k l m. t ! i ! j ! k ! l ! m)) = length t"
    using h by (simp add: tabulate5_def is_t5_def)
  fix i assume "i < length (tabulate5 a b c d e (\<lambda>i j k l m. t ! i ! j ! k ! l ! m))"
  then have i: "i < a" by (simp add: tabulate5_def)
  have "is_t4 b c d e (t ! i)" using h i by (rule is_t5_nth)
  then have "tabulate4 b c d e (\<lambda>j k l m. t ! i ! j ! k ! l ! m) = t ! i"
    by (rule tabulate4_nth)
  then show "tabulate5 a b c d e (\<lambda>i j k l m. t ! i ! j ! k ! l ! m) ! i = t ! i"
    using i by (simp add: tabulate5_def)
qed

lemma map_tabulate2: "map (map f) (tabulate2 a b g) = tabulate2 a b (\<lambda>i j. f (g i j))"
  by (simp add: tabulate2_def comp_def)

lemma map_tabulate4:
  "map (map (map (map f))) (tabulate4 a b c d g) = tabulate4 a b c d (\<lambda>i j k l. f (g i j k l))"
  by (simp add: tabulate4_def comp_def map_tabulate2)

lemma map_tabulate5:
  "map (map (map (map (map f)))) (tabulate5 a b c d e g)
     = tabulate5 a b c d e (\<lambda>i j k l m. f (g i j k l m))"
  by (simp add: tabulate5_def comp_def map_tabulate4)

lemma map4_shaped:
  "is_t4 a b c d t \<Longrightarrow>
   map (map (map (map f))) t = tabulate4 a b c d (\<lambda>i j k l. f (t ! i ! j ! k ! l))"
  using map_tabulate4[of f a b c d "\<lambda>i j k l. t ! i ! j ! k ! l"] tabulate4_nth[of a b c d t]
  by simp

lemma map5_shaped:
  "is_t5 a b c d e t \<Longrightarrow>
   map (map (map (map (map f)))) t = tabulate5 a b c d e (\<lambda>i j k l m. f (t ! i ! j ! k ! l ! m))"
  using map_tabulate5[of f a b c d e "\<lambda>i j k l m. t ! i ! j ! k ! l ! m"]
        tabulate5_nth[of a b c d e t]
  by simp

lemma broadcast5_shaped:
  assumes "is_t5 a0 a1 a2 a3 a4 a" "is_t5 b0 b1 b2 b3 b4 b"
    and "0 < a0" "0 < a1" "0 < a2" "0 < a3" "0 < b0" "0 < b1" "0 < b2" "0 < b3"
    and "bdim a0 b0 = Some n0" "bdim a1 b1 = Some n1" "bdim a2 b2 = Some n2"
        "bdim a3 b3 = Some n3" "bdim a4 b4 = Some n4"
  shows "broadcast5 f a b =
     Inr (tabulate5 n0 n1 n2 n3 n4 (\<lambda>i j k l m.
            f (a ! bidx a0 i ! bidx a1 j ! bidx a2 k ! bidx a3 l ! bidx a4 m)
              (b ! bidx b0 i ! bidx b1 j ! bidx b2 k ! bidx b3 l ! bidx b4 m)))"
  using assms
  by (simp add: broadcast5_def is_t5_dim0 is_t5_dim1 is_t5_dim2 is_t5_dim3 is_t5_dim4)

lemma is_t5_unsqueeze0: "is_t4 a b c d t \<Longrightarrow> is_t5 1 a b c d (unsqueeze0 t)"
  by (simp add: is_t5_def unsqueeze0_def)

lemma is_t5_unsqueeze1: "is_t4 a b c d t \<Longrightarrow> is_t5 a 1 b c d (unsqueeze1 t)"
  by (simp add: is_t5_def is_t4_def unsqueeze1_def list_all_length)

lemma unsqueeze1_nth: "i < length t \<Longrightarrow> unsqueeze1 t ! i ! 0 = t ! i"
  by (simp add: unsqueeze1_def)

lemma linear_shaped:
  assumes "is_mat Ns sd style" "is_mat Ci sd M" "0 < Ns" "0 < Ci"
  shows "linear style M =
     Inr (tabulate2 Ns Ci (\<lambda>n c. sum_list (map (\<lambda>d. style ! n ! d * M ! c ! d) [0 ..< sd])))"
  using assms by (simp add: linear_def is_mat_dim0 is_mat_dim1)

lemma linear_mismatch:
  assumes "is_mat Ns sd' style" "is_mat Ci sd M" "0 < Ns" "0 < Ci" "sd' \<noteq> sd"
  shows "linear style M = Inl ShapeError"
  using assms by (simp add: linear_def is_mat_dim1)

lemma view4_mismatch: "length xs \<noteq> a * b * c * d \<Longrightarrow> view4 xs a b c d = Inl ShapeError"
  by (simp add: view4_def)

lemma view4_mat:
  assumes m: "is_mat a b t"
  shows "view4 (flat2 t) a b 1 1 = Inr (tabulate4 a b 1 1 (\<lambda>i j k l. t ! i ! j))"
proof -
  have "tabulate4 a b 1 1 (\<lambda>i j k l. flat2 t ! (((i * b + j) * 1 + k) * 1 + l))
        = tabulate4 a b 1 1 (\<lambda>i j k l. t ! i ! j)"
    by (rule tabulate4_cong) (simp add: flat2_nth[OF m])
  then show ?thesis by (simp add: view4_def flat2_length[OF m])
qed

lemma modulated_weight_shaped:
  assumes L: "wf_ModulatedConv2d L sd"
    and x: "is_t4 N (in_channels L) H W x"
    and s: "is_mat N sd style"
    and pos: "0 < N" "0 < out_channels L"
  shows "modulated_weight L x style =
     Inr (tabulate5 N (out_channels L) (in_channels L) (kernel_size L) (kernel_size L)
            (\<lambda>n oc c u v. scale L * weight L ! oc ! c ! u ! v * style_proj L sd style n c))"
proof -
  let ?Ci = "in_channels L" and ?Co = "out_channels L" and ?k = "kernel_size L"
  have Ci: "0 < ?Ci" and k: "0 < ?k" and M: "is_mat ?Ci sd (modulation L)"
    and Wt: "is_t4 ?Co ?Ci ?k ?k (weight L)"
    using L by (simp_all add: wf_ModulatedConv2d_def)
  let ?m = "tabulate2 N ?Ci (style_proj L sd style)"
  have lin: "linear style (modulation L) = Inr ?m"
    using linear_shaped[OF s M pos(1) Ci] by (simp add: style_proj_def[abs_def])
  let ?s4 = "tabulate4 N ?Ci 1 1 (\<lambda>i j k l. ?m ! i ! j)"
  have vw: "view4 (flat2 ?m) N ?Ci 1 1 = Inr ?s4"
    by (rule view4_mat) (rule is_mat_tabulate2)
  let ?A = "scalar_mul5 (scale L) (unsqueeze0 (weight L))"
  let ?B = "unsqueeze1 ?s4"
  have A5: "is_t5 1 ?Co ?Ci ?k ?k (unsqueeze0 (weight L))"
    using Wt by (rule is_t5_unsqueeze0)
  have Aeq: "?A = tabulate5 1 ?Co ?Ci ?k ?k (\<lambda>i j k l m. scale L * unsqueeze0 (weight L) ! i ! j ! k ! l ! m)"
    unfolding scalar_mul5_def using A5 by (rule map5_shaped)
  have At: "is_t5 1 ?Co ?Ci ?k ?k ?A"
    unfolding Aeq by (rule is_t5_tabulate5)
  have Bt: "is_t5 N 1 ?Ci 1 1 ?B"
    by (rule is_t5_unsqueeze1) (rule is_t4_tabulate4)
  have bc: "broadcast5 (*) ?A ?B =
     Inr (tabulate5 N ?Co ?Ci ?k ?k (\<lambda>i j k l m.
            (?A ! bidx 1 i ! bidx ?Co j ! bidx ?Ci k ! bidx ?k l ! bidx ?k m)
              * (?B ! bidx N i ! bidx 1 j ! bidx ?Ci k ! bidx 1 l ! bidx 1 m)))"
    using broadcast5_shaped[OF At Bt, of N ?Co ?Ci ?k ?k "(*)"] pos Ci k
    by (simp add: bdim_same bdim_one_left bdim_one_right)
  have "tabulate5 N ?Co ?Ci ?k ?k (\<lambda>i j k l m.
            (?A ! bidx 1 i ! bidx ?Co j ! bidx ?Ci k ! bidx ?k l ! bidx ?k m)
              * (?B ! bidx N i ! bidx 1 j ! bidx ?Ci k ! bidx 1 l ! bidx 1 m))
      = tabulate5 N ?Co ?Ci ?k ?k
            (\<lambda>n oc c u v. scale L * weight L ! oc ! c ! u ! v * style_proj L sd style n c)"
  proof (rule tabulate5_cong)
    fix i j k l m assume b: "i < N" "j < ?Co" "k < ?Ci" "l < ?k" "m < ?k"
    have "?A ! 0 ! j ! k ! l ! m = scale L * weight L ! j ! k ! l ! m"
      unfolding Aeq using b by (simp add: nth_tabulate5 unsqueeze0_def)
    moreover have "?B ! i ! 0 ! k ! 0 ! 0 = style_proj L sd style i k"
      using b by (simp add: unsqueeze1_def tabulate4_def nth_tabulate2)
    ultimately show "(?A ! bidx 1 i ! bidx ?Co j ! bidx ?Ci k ! bidx ?k l ! bidx ?k m)
              * (?B ! bidx N i ! bidx 1 j ! bidx ?Ci k ! bidx 1 l ! bidx 1 m)
         = scale L * weight L ! j ! k ! l ! m * style_proj L sd style i k"
      using b by (simp add: bidx_lt bidx_one)
  qed
  with bc lin vw show ?thesis
    using pos Ci by (simp add: modulated_weight_def is_t4_dim0[OF x] is_t4_dim1[OF x])
qed

lemma tabulate2_const: "tabulate2 a b (\<lambda>i j. v) = replicate a (replicate b v)"
  by (simp add: tabulate2_def map_replicate_const)

lemma tabulate4_const:
  "tabulate4 a b c d (\<lambda>i j k l. v) = replicate a (replicate b (replicate c (replicate d v)))"
  by (simp add: tabulate4_def tabulate2_const map_replicate_const)

lemma tabulate5_const:
  "tabulate5 a b c d e (\<lambda>i j k l m. v)
     = replicate a (replicate b (replicate c (replicate d (replicate e v))))"
  by (simp add: tabulate5_def tabulate4_const map_replicate_const)

lemma style_proj_zero:
  "n < N \<Longrightarrow> style_proj L sd (replicate N (replicate sd 0)) n c = 0"
proof -
  assume n: "n < N"
  have "map (\<lambda>d. replicate N (replicate sd (0::real)) ! n ! d * modulation L ! c ! d) [0 ..< sd]
        = map (\<lambda>d. 0) [0 ..< sd]"
    using n by (intro map_cong) simp_all
  then have "sum_list (map (\<lambda>d. replicate N (replicate sd (0::real)) ! n ! d
                                   * modulation L ! c ! d) [0 ..< sd])
             = sum_list (map (\<lambda>d. 0) [0 ..< sd])"
    by (rule arg_cong)
  then show ?thesis unfolding style_proj_def by simp
qed

lemmas eval_defs =
  ModulatedConv2d_forward_def sample_kernels_def modulated_weight_def grouped_conv2d_def
  conv2d_def padded_def conv_stride_def conv_padding_def NoiseInjection_forward_def
  NoiseInjection_init_def randn_def linear_def view4_def view5_def flat2_def flat4_def flat5_def
  broadcast4_def broadcast5_def scalar_mul5_def unsqueeze0_def unsqueeze1_def
  dim0_def dim1_def dim2_def dim3_def dim4_def bdim_def bidx_def
  tabulate2_def tabulate4_def tabulate5_def zero_draws_def

lemma map2_shaped: "is_mat a b t \<Longrightarrow> map (map f) t = tabulate2 a b (\<lambda>i j. f (t ! i ! j))"
  using map_tabulate2[of f a b "\<lambda>i j. t ! i ! j"] tabulate2_nth[of a b t] by simp

lemma view5_mat:
  assumes m: "is_mat a b t"
  shows "view5 (flat2 t) a b 1 1 1 = Inr (tabulate5 a b 1 1 1 (\<lambda>i j k l m. t ! i ! j))"
proof -
  have "tabulate5 a b 1 1 1 (\<lambda>i j k l m. flat2 t ! ((((i * b + j) * 1 + k) * 1 + l) * 1 + m))
        = tabulate5 a b 1 1 1 (\<lambda>i j k l m. t ! i ! j)"
    by (rule tabulate5_cong) (simp add: flat2_nth[OF m])
  then show ?thesis by (simp add: view5_def flat2_length[OF m])
qed

lemma sum_squares_slice:
  "sum_list (concat (concat (map (map (map (\<lambda>v. v ^ 2))) s))) = sumsq s"
  by (simp add: sumsq_def map_concat comp_def)

lemma sum234_pow2: "sum234 (pow2 wt) = map (map sumsq) wt"
  by (simp add: sum234_def pow2_def comp_def sum_squares_slice)

lemma sumsq_nonneg: "0 \<le> sumsq s"
  unfolding sumsq_def by (rule sum_list_nonneg) auto

lemma sumsq_scaled: "sumsq (map (map (map (\<lambda>v. v * d))) s) = d ^ 2 * sumsq s"
proof -
  have "sumsq (map (map (map (\<lambda>v. v * d))) s)
        = sum_list (map (\<lambda>v. d ^ 2 * v ^ 2) (concat (concat s)))"
    by (simp add: sumsq_def map_concat comp_def power_mult_distrib mult.commute)
  also have "\<dots> = d ^ 2 * sumsq s"
    by (simp add: sumsq_def sum_list_const_mult)
  finally show ?thesis .
qed

lemma rsqrt_squared: "0 < v \<Longrightarrow> (rsqrt v) ^ 2 = 1 / v"
  by (simp add: rsqrt_def power_divide)

lemma demodulated_shaped:
  assumes wt: "is_t5 N Co Ci k k wt" and Co: "out_channels L = Co"
    and pos: "0 < N" "0 < Co" "0 < Ci" "0 < k"
  shows "demodulated L N wt =
     Inr (tabulate5 N Co Ci k k
            (\<lambda>n oc c u v. wt ! n ! oc ! c ! u ! v * rsqrt (sumsq (wt ! n ! oc) + 1 / 10 ^ 8)))"
proof -
  let ?D = "\<lambda>n oc. rsqrt (sumsq (wt ! n ! oc) + 1 / 10 ^ 8)"
  have m: "is_mat N Co wt" using wt by (rule is_t5_is_mat)
  have "map (map (\<lambda>e. rsqrt (e + 1 / 10 ^ 8))) (sum234 (pow2 wt))
        = map (map (\<lambda>s. rsqrt (sumsq s + 1 / 10 ^ 8))) wt"
    by (simp add: sum234_pow2 comp_def)
  also have "\<dots> = tabulate2 N Co ?D" using m by (rule map2_shaped)
  finally have dm: "map (map (\<lambda>e. rsqrt (e + 1 / 10 ^ 8))) (sum234 (pow2 wt)) = tabulate2 N Co ?D" .
  let ?d5 = "tabulate5 N Co 1 1 1 (\<lambda>i j k l m. tabulate2 N Co ?D ! i ! j)"
  have vw: "view5 (flat2 (tabulate2 N Co ?D)) N Co 1 1 1 = Inr ?d5"
    by (rule view5_mat) (rule is_mat_tabulate2)
  have d5: "is_t5 N Co 1 1 1 ?d5" by (rule is_t5_tabulate5)
  have bc: "broadcast5 (*) wt ?d5 =
     Inr (tabulate5 N Co Ci k k (\<lambda>i j c l m.
            (wt ! bidx N i ! bidx Co j ! bidx Ci c ! bidx k l ! bidx k m)
              * (?d5 ! bidx N i ! bidx Co j ! bidx 1 c ! bidx 1 l ! bidx 1 m)))"
    using broadcast5_shaped[OF wt d5, of N Co Ci k k "(*)"] pos
    by (simp add: bdim_same bdim_one_right)
  have "tabulate5 N Co Ci k k (\<lambda>i j c l m.
            (wt ! bidx N i ! bidx Co j ! bidx Ci c ! bidx k l ! bidx k m)
              * (?d5 ! bidx N i ! bidx Co j ! bidx 1 c ! bidx 1 l ! bidx 1 m))
      = tabulate5 N Co Ci k k (\<lambda>n oc c u v. wt ! n ! oc ! c ! u ! v * ?D n oc)"
    by (rule tabulate5_cong) (simp add: bidx_lt bidx_one nth_tabulate5 nth_tabulate2)
  with bc vw dm show ?thesis by (simp add: demodulated_def Co)
qed

lemma tabulate5_slice:
  assumes wt: "is_t5 N Co Ci k k wt" and b: "n < N" "oc < Co"
  shows "tabulate5 N Co Ci k k (\<lambda>n oc c u v. wt ! n ! oc ! c ! u ! v * D n oc) ! n ! oc
         = map (map (map (\<lambda>v. v * D n oc))) (wt ! n ! oc)"
proof -
  have s: "is_t3 Ci k k (wt ! n ! oc)"
    using is_t4_nth[OF is_t5_nth[OF wt b(1)] b(2)] .
  have "map (map (map (\<lambda>v. v * D n oc))) (wt ! n ! oc)
        = map (\<lambda>c. map (map (\<lambda>v. v * D n oc)) (wt ! n ! oc ! c)) [0 ..< Ci]"
  proof -
    have "length (wt ! n ! oc) = Ci" using s by (simp add: is_t3_def)
    then have "map (\<lambda>c. wt ! n ! oc ! c) [0 ..< Ci] = wt ! n ! oc"
      using map_nth[of "wt ! n ! oc"] by simp
    then have "map (map (map (\<lambda>v. v * D n oc))) (wt ! n ! oc)
        = map (map (map (\<lambda>v. v * D n oc))) (map (\<lambda>c. wt ! n ! oc ! c) [0 ..< Ci])"
      by simp
    then show ?thesis by (simp add: comp_def)
  qed
  also have "\<dots> = map (\<lambda>c. tabulate2 k k (\<lambda>u v. wt ! n ! oc ! c ! u ! v * D n oc)) [0 ..< Ci]"
  proof (intro map_cong refl)
    fix c assume "c \<in> set [0 ..< Ci]"
    then have "is_mat k k (wt ! n ! oc ! c)" using is_t3_nth[OF s] by simp
    then show "map (map (\<lambda>v. v * D n oc)) (wt ! n ! oc ! c)
               = tabulate2 k k (\<lambda>u v. wt ! n ! oc ! c ! u ! v * D n oc)"
      by (rule map2_shaped)
  qed
  finally show ?thesis using b by (simp add: tabulate5_def tabulate4_def)
qed

lemma div_mod_bounds:
  "oc < N * Co \<Longrightarrow> oc div Co < N \<and> oc mod Co < (Co::nat)"
proof -
  assume a: "oc < N * Co"
  then have "0 < Co" by (cases Co) auto
  moreover have "oc div Co < N" using a by (simp add: less_mult_imp_div_less)
  ultimately show ?thesis by simp
qed

lemma fold_index: "0 < Co \<Longrightarrow> o' < Co \<Longrightarrow> (n * Co + o') div Co = n \<and> (n * Co + o') mod Co = (o'::nat)"
  by simp

lemma view4_fold_kernel:
  assumes wt: "is_t5 N Co Ci k k wt"
  shows "view4 (flat5 wt) (N * Co) Ci k k =
     Inr (tabulate4 (N * Co) Ci k k (\<lambda>oc c u v. wt ! (oc div Co) ! (oc mod Co) ! c ! u ! v))"
proof -
  have "tabulate4 (N * Co) Ci k k (\<lambda>oc c u v. flat5 wt ! (((oc * Ci + c) * k + u) * k + v))
        = tabulate4 (N * Co) Ci k k (\<lambda>oc c u v. wt ! (oc div Co) ! (oc mod Co) ! c ! u ! v)"
  proof (rule tabulate4_cong)
    fix oc c u v assume b: "oc < N * Co" "c < Ci" "u < k" "v < k"
    have dm: "oc div Co < N" "oc mod Co < Co" using div_mod_bounds[OF b(1)] by simp_all
    have "flat5 wt ! (((((oc div Co) * Co + oc mod Co) * Ci + c) * k + u) * k + v)
          = wt ! (oc div Co) ! (oc mod Co) ! c ! u ! v"
      using flat5_nth[OF wt dm b(2) b(3) b(4)] .
    then show "flat5 wt ! (((oc * Ci + c) * k + u) * k + v)
               = wt ! (oc div Co) ! (oc mod Co) ! c ! u ! v"
      by simp
  qed
  then show ?thesis by (simp add: view4_def flat5_length[OF wt])
qed

lemma view4_fold_input:
  assumes x: "is_t4 N Ci H W x"
  shows "view4 (flat4 x) 1 (N * Ci) H W =
     Inr (tabulate4 1 (N * Ci) H W (\<lambda>b ch h w. x ! (ch div Ci) ! (ch mod Ci) ! h ! w))"
proof -
  have "tabulate4 1 (N * Ci) H W (\<lambda>b ch h w. flat4 x ! (((b * (N * Ci) + ch) * H + h) * W + w))
        = tabulate4 1 (N * Ci) H W (\<lambda>b ch h w. x ! (ch div Ci) ! (ch mod Ci) ! h ! w)"
  proof (rule tabulate4_cong)
    fix b :: nat and ch h w assume b: "b < 1" "ch < N * Ci" "h < H" "w < W"
    have dm: "ch div Ci < N" "ch mod Ci < Ci" using div_mod_bounds[OF b(2)] by simp_all
    have "flat4 x ! ((((ch div Ci) * Ci + ch mod Ci) * H + h) * W + w)
          = x ! (ch div Ci) ! (ch mod Ci) ! h ! w"
      using flat4_nth[OF x dm b(3) b(4)] .
    then show "flat4 x ! (((b * (N * Ci) + ch) * H + h) * W + w)
               = x ! (ch div Ci) ! (ch mod Ci) ! h ! w"
      using b(1) by simp
  qed
  then show ?thesis by (simp add: view4_def flat4_length[OF x])
qed

lemma view4_unfold_output:
  assumes out: "is_t4 1 (N * Co) H W out"
  shows "view4 (flat4 out) N Co H W =
     Inr (tabulate4 N Co H W (\<lambda>n oc h w. out ! 0 ! (n * Co + oc) ! h ! w))"
proof -
  have "tabulate4 N Co H W (\<lambda>n oc h w. flat4 out ! (((n * Co + oc) * H + h) * W + w))
        = tabulate4 N Co H W (\<lambda>n oc h w. out ! 0 ! (n * Co + oc) ! h ! w)"
  proof (rule tabulate4_cong)
    fix n oc h w assume b: "n < N" "oc < Co" "h < H" "w < W"
    have i: "n * Co + oc < N * Co" using b by (simp add: idx_bound)
    show "flat4 out ! (((n * Co + oc) * H + h) * W + w) = out ! 0 ! (n * Co + oc) ! h ! w"
      using flat4_nth[OF out _ i b(3) b(4), of 0] by simp
  qed
  then show ?thesis using flat4_length[OF out] by (simp add: view4_def)
qed

lemma conv2d_shaped:
  assumes x: "is_t4 B C H W x" and w: "is_t4 Ot Cg kh kw w"
    and pos: "0 < B" "0 < C" "0 < H" "0 < Ot" "0 < Cg" "0 < kh"
    and G: "0 < G" "C = Cg * G" "Ot mod G = 0"
  shows "conv2d x w p s G =
     (if conv_ok p s H W kh kw
      then Inr (tabulate4 B Ot (out_extent H p s kh) (out_extent W p s kw)
                  (\<lambda>b oc i j.
                     sum_list (map (\<lambda>c.
                       sum_list (map (\<lambda>u.
                         sum_list (map (\<lambda>v.
                           padded x (nat p) b (oc div (Ot div G) * Cg + c)
                                  (i * nat s + u) (j * nat s + v)
                             * w ! oc ! c ! u ! v)
                           [0 ..< kw]))
                         [0 ..< kh]))
                       [0 ..< Cg])))
      else Inl ShapeError)"
  using pos G
  by (auto simp: conv2d_def conv_ok_def out_extent_def
        is_t4_dim0[OF x] is_t4_dim1[OF x] is_t4_dim2[OF x] is_t4_dim3[OF x]
        is_t4_dim0[OF w] is_t4_dim1[OF w] is_t4_dim2[OF w] is_t4_dim3[OF w])

lemma sum_list_map_cong:
  "(\<And>a. a < n \<Longrightarrow> f a = g a) \<Longrightarrow> sum_list (map f [0 ..< n]) = sum_list (map g [0 ..< n])"
  by (rule arg_cong[where f = sum_list]) (rule map_cong, simp_all)

lemma grouped_summand:
  assumes x: "is_t4 N Ci H W x" and wt: "is_t5 N Co Ci k k wt"
    and pos: "0 < N" "0 < Ci" "0 < H" "0 < Co"
    and b: "n < N" "oc < Co" "c < Ci" "u < k" "v < k"
  shows "padded (tabulate4 1 (N * Ci) H W (\<lambda>b ch h w. x ! (ch div Ci) ! (ch mod Ci) ! h ! w))
           P 0 ((n * Co + oc) div (N * Co div N) * Ci + c) r q
         * tabulate4 (N * Co) Ci k k (\<lambda>oc c u v. wt ! (oc div Co) ! (oc mod Co) ! c ! u ! v)
             ! (n * Co + oc) ! c ! u ! v
       = (if P \<le> r \<and> r < H + P \<and> P \<le> q \<and> q < W + P
          then x ! n ! c ! (r - P) ! (q - P) else 0) * wt ! n ! oc ! c ! u ! v"
proof -
  let ?x1 = "tabulate4 1 (N * Ci) H W (\<lambda>b ch h w. x ! (ch div Ci) ! (ch mod Ci) ! h ! w)"
  have t: "is_t4 1 (N * Ci) H W ?x1" by (rule is_t4_tabulate4)
  have NC: "0 < N * Ci" using pos by simp
  have d2: "dim2 ?x1 = H" using is_t4_dim2[OF t] NC by simp
  have d3: "dim3 ?x1 = W" using is_t4_dim3[OF t] NC pos by simp
  have g: "(n * Co + oc) div (N * Co div N) = n" using pos b by simp
  have i1: "n * Co + oc < N * Co" using b by (simp add: idx_bound)
  have i2: "n * Ci + c < N * Ci" using b by (simp add: idx_bound)
  have w: "tabulate4 (N * Co) Ci k k (\<lambda>oc c u v. wt ! (oc div Co) ! (oc mod Co) ! c ! u ! v)
             ! (n * Co + oc) ! c ! u ! v = wt ! n ! oc ! c ! u ! v"
    using i1 b pos by (simp add: nth_tabulate4)
  have xe: "?x1 ! 0 ! (n * Ci + c) ! h ! w' = x ! n ! c ! h ! w'" if "h < H" "w' < W" for h w'
    using i2 that b pos by (simp add: nth_tabulate4)
  show ?thesis
  proof (cases "P \<le> r \<and> r < H + P \<and> P \<le> q \<and> q < W + P")
    case True
    then have "r - P < H" "q - P < W" by auto
    then have "?x1 ! 0 ! (n * Ci + c) ! (r - P) ! (q - P) = x ! n ! c ! (r - P) ! (q - P)"
      by (rule xe)
    then show ?thesis unfolding padded_def d2 d3 g w if_P[OF True] by simp
  next
    case False
    show ?thesis unfolding padded_def d2 d3 g w if_not_P[OF False] by simp
  qed
qed

lemma grouped_conv2d_shaped:
  assumes x: "is_t4 N Ci H W x" and wt: "is_t5 N Co Ci k k wt"
    and pos: "0 < N" "0 < Ci" "0 < H" "0 < Co" "0 < k"
  shows "grouped_conv2d Co k x wt p s =
     (if conv_ok p s H W k k
      then Inr (tabulate4 N Co (out_extent H p s k) (out_extent W p s k)
                  (\<lambda>n oc i j. conv_at (x ! n) (wt ! n ! oc) Ci k H W (nat p) (nat s) i j))
      else Inl ShapeError)"
proof -
  define w4 where
    "w4 = tabulate4 (N * Co) Ci k k (\<lambda>oc c u v. wt ! (oc div Co) ! (oc mod Co) ! c ! u ! v)"
  define x1 where
    "x1 = tabulate4 1 (N * Ci) H W (\<lambda>b ch h w. x ! (ch div Ci) ! (ch mod Ci) ! h ! w)"
  define H' where "H' = out_extent H p s k"
  define W' where "W' = out_extent W p s k"
  define F where "F = (\<lambda>b oc i j.
              sum_list (map (\<lambda>c.
                sum_list (map (\<lambda>u.
                  sum_list (map (\<lambda>v.
                    padded x1 (nat p) b (oc div (N * Co div N) * Ci + c)
                           (i * nat s + u) (j * nat s + v)
                      * w4 ! oc ! c ! u ! v)
                    [0 ..< k]))
                  [0 ..< k]))
                [0 ..< Ci]))"
  define out where "out = tabulate4 1 (N * Co) H' W' F"
  have dims: "dim0 x = N" "dim1 x = Ci" "dim2 x = H" "dim3 x = W"
    using is_t4_dim0[OF x] is_t4_dim1[OF x] is_t4_dim2[OF x] is_t4_dim3[OF x] pos by simp_all
  have t1: "is_t4 1 (N * Ci) H W x1" and t2: "is_t4 (N * Co) Ci k k w4"
    unfolding x1_def w4_def by (rule is_t4_tabulate4)+
  have NCi: "0 < N * Ci" and NCo: "0 < N * Co" using pos by simp_all
  have G: "N * Ci = Ci * N" "N * Co mod N = 0" by simp_all
  have cv: "conv2d x1 w4 p s N =
     (if conv_ok p s H W k k then Inr out else Inl ShapeError)"
    unfolding out_def H'_def W'_def F_def
    by (rule conv2d_shaped[OF t1 t2 _ NCi pos(3) NCo pos(2) pos(5) pos(1) G]) simp
  have vk: "view4 (flat5 wt) (N * Co) Ci k k = Inr w4"
    unfolding w4_def by (rule view4_fold_kernel[OF wt])
  have vx: "view4 (flat4 x) 1 (N * Ci) H W = Inr x1"
    unfolding x1_def by (rule view4_fold_input[OF x])
  have start: "grouped_conv2d Co k x wt p s =
     (case conv2d x1 w4 p s N of
        Inl e \<Rightarrow> Inl e
      | Inr out \<Rightarrow> view4 (flat4 out) N Co (dim2 out) (dim3 out))"
    unfolding grouped_conv2d_def Let_def dims vk vx by simp
  show ?thesis
  proof (cases "conv_ok p s H W k k")
    case False
    then show ?thesis unfolding start cv by simp
  next
    case True
    have to: "is_t4 1 (N * Co) H' W' out" unfolding out_def by (rule is_t4_tabulate4)
    have Hp: "0 < H'" by (simp add: H'_def out_extent_def)
    have od: "dim2 out = H'" "dim3 out = W'"
      using is_t4_dim2[OF to] is_t4_dim3[OF to] NCo Hp by simp_all
    have eq: "tabulate4 N Co H' W' (\<lambda>n oc h w. out ! 0 ! (n * Co + oc) ! h ! w)
          = tabulate4 N Co H' W'
              (\<lambda>n oc i j. conv_at (x ! n) (wt ! n ! oc) Ci k H W (nat p) (nat s) i j)"
    proof (rule tabulate4_cong)
      fix n oc i j assume b: "n < N" "oc < Co" "i < H'" "j < W'"
      have i1: "n * Co + oc < N * Co" using b by (simp add: idx_bound)
      have "out ! 0 ! (n * Co + oc) ! i ! j = F 0 (n * Co + oc) i j"
        unfolding out_def using i1 b by (simp add: nth_tabulate4)
      also have "\<dots> = conv_at (x ! n) (wt ! n ! oc) Ci k H W (nat p) (nat s) i j"
        unfolding conv_at_def F_def x1_def w4_def
        by (intro sum_list_map_cong)
           (rule grouped_summand[OF x wt pos(1-4) b(1) b(2)], assumption+)
      finally show "out ! 0 ! (n * Co + oc) ! i ! j
                    = conv_at (x ! n) (wt ! n ! oc) Ci k H W (nat p) (nat s) i j" .
    qed
    have "grouped_conv2d Co k x wt p s = view4 (flat4 out) N Co H' W'"
      unfolding start cv using True by (simp add: od)
    also have "\<dots> = Inr (tabulate4 N Co H' W' (\<lambda>n oc h w. out ! 0 ! (n * Co + oc) ! h ! w))"
      by (rule view4_unfold_output[OF to])
    finally have "grouped_conv2d Co k x wt p s =
        Inr (tabulate4 N Co H' W'
              (\<lambda>n oc i j. conv_at (x ! n) (wt ! n ! oc) Ci k H W (nat p) (nat s) i j))"
      unfolding eq .
    then show ?thesis unfolding H'_def W'_def if_P[OF True] .
  qed
qed

lemma single_summand:
  assumes xn: "is_t3 Ci H W xn" and pos: "0 < Ci" "0 < H" "0 < Co" and b: "oc < Co"
  shows "padded [xn] P 0 (oc div (Co div 1) * Ci + c) r q
         = (if P \<le> r \<and> r < H + P \<and> P \<le> q \<and> q < W + P
            then xn ! c ! (r - P) ! (q - P) else 0)"
proof -
  have d2: "dim2 [xn] = H" using is_t3_dim1[OF xn pos(1)] by (simp add: dim2_def)
  have d3: "dim3 [xn] = W" using is_t3_dim2[OF xn pos(1) pos(2)] by (simp add: dim3_def)
  have g: "oc div (Co div 1) * Ci + c = c" using b by simp
  show ?thesis unfolding padded_def d2 d3 g by simp
qed

lemma single_conv2d_shaped:
  assumes xn: "is_t3 Ci H W xn" and wn: "is_t4 Co Ci k k wn"
    and pos: "0 < Ci" "0 < H" "0 < Co" "0 < k"
  shows "conv2d [xn] wn p s 1 =
     (if conv_ok p s H W k k
      then Inr (tabulate4 1 Co (out_extent H p s k) (out_extent W p s k)
                  (\<lambda>b oc i j. conv_at xn (wn ! oc) Ci k H W (nat p) (nat s) i j))
      else Inl ShapeError)"
proof -
  have t: "is_t4 1 Ci H W [xn]" using xn by (simp add: is_t4_def)
  have cv: "conv2d [xn] wn p s 1 =
     (if conv_ok p s H W k k
      then Inr (tabulate4 1 Co (out_extent H p s k) (out_extent W p s k)
                  (\<lambda>b oc i j.
                     sum_list (map (\<lambda>c.
                       sum_list (map (\<lambda>u.
                         sum_list (map (\<lambda>v.
                           padded [xn] (nat p) b (oc div (Co div 1) * Ci + c)
                                  (i * nat s + u) (j * nat s + v)
                             * wn ! oc ! c ! u ! v)
                           [0 ..< k]))
                         [0 ..< k]))
                       [0 ..< Ci])))
      else Inl ShapeError)"
    by (rule conv2d_shaped[OF t wn _ pos(1) pos(2) pos(3) pos(1) pos(4)]) simp_all
  have "tabulate4 1 Co (out_extent H p s k) (out_extent W p s k)
                  (\<lambda>b oc i j.
                     sum_list (map (\<lambda>c.
                       sum_list (map (\<lambda>u.
                         sum_list (map (\<lambda>v.
                           padded [xn] (nat p) b (oc div (Co div 1) * Ci + c)
                                  (i * nat s + u) (j * nat s + v)
                             * wn ! oc ! c ! u ! v)
                           [0 ..< k]))
                         [0 ..< k]))
                       [0 ..< Ci]))
      = tabulate4 1 Co (out_extent H p s k) (out_extent W p s k)
                  (\<lambda>b oc i j. conv_at xn (wn ! oc) Ci k H W (nat p) (nat s) i j)"
  proof (rule tabulate4_cong)
    fix b :: nat and oc i j assume b: "b < 1" "oc < Co"
    then have b0: "b = 0" by simp
    show "sum_list (map (\<lambda>c.
                       sum_list (map (\<lambda>u.
                         sum_list (map (\<lambda>v.
                           padded [xn] (nat p) b (oc div (Co div 1) * Ci + c)
                                  (i * nat s + u) (j * nat s + v)
                             * wn ! oc ! c ! u ! v)
                           [0 ..< k]))
                         [0 ..< k]))
                       [0 ..< Ci])
          = conv_at xn (wn ! oc) Ci k H W (nat p) (nat s) i j"
      unfolding conv_at_def b0 single_summand[OF xn pos(1) pos(2) pos(3) b(2)] ..
  qed
  then show ?thesis unfolding cv by simp
qed

lemma per_sample_conv2d_shaped:
  assumes "is_t4 N Ci H W x" and "is_t5 N Co Ci k k wt"
    and pos: "0 < Ci" "0 < H" "0 < Co" "0 < k" and ok: "conv_ok p s H W k k"
  shows "per_sample_conv2d x wt p s =
     Inr (map (\<lambda>(xn, wn). tabulate4 1 Co (out_extent H p s k) (out_extent W p s k)
                  (\<lambda>b oc i j. conv_at xn (wn ! oc) Ci k H W (nat p) (nat s) i j) ! 0)
              (zip x wt))"
  using assms(1,2)
proof (induction x arbitrary: wt N)
  case Nil
  then show ?case by (cases wt) (auto simp: is_t4_def is_t5_def)
next
  case (Cons xn xs)
  then obtain wn ws where wt: "wt = wn # ws" by (cases wt) (auto simp: is_t4_def is_t5_def)
  from Cons.prems wt have xn: "is_t3 Ci H W xn" and wn: "is_t4 Co Ci k k wn"
    and xs: "is_t4 (length xs) Ci H W xs" and ws: "is_t5 (length xs) Co Ci k k ws"
    by (auto simp: is_t4_def is_t5_def)
  show ?case
    unfolding wt
    using single_conv2d_shaped[OF xn wn pos, of p s] ok Cons.IH[OF xs ws]
    by simp
qed

lemma per_sample_conv2d_rejects:
  assumes "is_t4 N Ci H W x" and "is_t5 N Co Ci k k wt" and "0 < N"
    and pos: "0 < Ci" "0 < H" "0 < Co" "0 < k" and ok: "\<not> conv_ok p s H W k k"
  shows "per_sample_conv2d x wt p s = Inl ShapeError"
proof -
  from assms(1-3) obtain xn xs wn ws where x: "x = xn # xs" and wt: "wt = wn # ws"
    by (cases x; cases wt) (auto simp: is_t4_def is_t5_def)
  from assms(1,2) x wt have xn: "is_t3 Ci H W xn" and wn: "is_t4 Co Ci k k wn"
    by (auto simp: is_t4_def is_t5_def)
  show ?thesis
    unfolding x wt using single_conv2d_shaped[OF xn wn pos, of p s] ok by simp
qed

lemma map_zip_nth:
  "length xs = n \<Longrightarrow> length ys = n \<Longrightarrow> map f (zip xs ys) = map (\<lambda>i. f (xs ! i, ys ! i)) [0 ..< n]"
  by (rule nth_equalityI) simp_all

lemma bitlen_1: "bitlen 1 = 1"
  by (simp add: compute_bitlen[of 1])

lemma bitlen_2: "bitlen 2 = 2"
  using bitlen_pow2[of 1 1] by (simp add: bitlen_1)

lemma round_double_half: "round_double (1 / 2) = 1 / 2"
  by (simp add: round_double_def binade_def round_half_even_def bitlen_1 power_int_def
        power_one_over)

lemma round_double_two: "round_double 2 = 2"
  by (simp add: round_double_def binade_def round_half_even_def bitlen_2 power_int_def
        power_one_over)

lemma conv_stride_up_2: "up L = 2 \<Longrightarrow> conv_stride L = 2"
  by (simp add: conv_stride_def round_double_half round_double_two)

lemma double_reciprocal_93: "\<lfloor>round_double (1 / round_double (1 / real_of_int 93))\<rfloor> = 92"
  by code_simp

lemma conv_stride_up_93: "up L = 93 \<Longrightarrow> conv_stride L = 92"
  using double_reciprocal_93 by (simp add: conv_stride_def)

lemma conv_stride_down: "\<not> 1 < up L \<Longrightarrow> conv_stride L = down L"
  by (simp add: conv_stride_def)

lemma sample_kernels_shaped:
  assumes L: "wf_ModulatedConv2d L sd"
    and x: "is_t4 N (in_channels L) H W x"
    and s: "is_mat N sd style"
    and pos: "0 < N" "0 < out_channels L"
  shows "\<exists>wt. sample_kernels L x style = Inr wt
           \<and> is_t5 N (out_channels L) (in_channels L) (kernel_size L) (kernel_size L) wt"
proof -
  let ?wt = "tabulate5 N (out_channels L) (in_channels L) (kernel_size L) (kernel_size L)
            (\<lambda>n oc c u v. scale L * weight L ! oc ! c ! u ! v * style_proj L sd style n c)"
  have Ci: "0 < in_channels L" and k: "0 < kernel_size L"
    using L by (simp_all add: wf_ModulatedConv2d_def)
  have mw: "modulated_weight L x style = Inr ?wt"
    using modulated_weight_shaped[OF L x s pos] .
  have t5: "is_t5 N (out_channels L) (in_channels L) (kernel_size L) (kernel_size L) ?wt"
    by (rule is_t5_tabulate5)
  show ?thesis
  proof (cases "demodulate L")
    case False
    then show ?thesis using mw t5 by (simp add: sample_kernels_def)
  next
    case True
    have "sample_kernels L x style = demodulated L N ?wt"
      using mw True by (simp add: sample_kernels_def is_t4_dim0[OF x])
    then show ?thesis
      unfolding demodulated_shaped[OF t5 refl pos Ci k]
      using is_t5_tabulate5 by blast
  qed
qed

lemma ModulatedConv2d_forward_shaped:
  assumes L: "wf_ModulatedConv2d L sd"
    and x: "is_t4 N (in_channels L) H W x"
    and s: "is_mat N sd style"
    and pos: "0 < N" "0 < out_channels L" "0 < H"
    and ok: "conv_ok (conv_padding L) (conv_stride L) H W (kernel_size L) (kernel_size L)"
    and H': "H' = out_extent H (conv_padding L) (conv_stride L) (kernel_size L)"
    and W': "W' = out_extent W (conv_padding L) (conv_stride L) (kernel_size L)"
    and n: "case noise of None \<Rightarrow> True | Some n \<Rightarrow> is_t4 N 1 H' W' n"
  shows "\<exists>out. ModulatedConv2d_forward L x style noise g = Inr out
           \<and> is_t4 N (out_channels L) H' W' out"
proof -
  have Ci: "0 < in_channels L" and k: "0 < kernel_size L"
    and nw: "is_t4 1 (out_channels L) 1 1 (ni_weight (noise_injection L))"
    using L by (simp_all add: wf_ModulatedConv2d_def)
  obtain wt where sk: "sample_kernels L x style = Inr wt"
    and t5: "is_t5 N (out_channels L) (in_channels L) (kernel_size L) (kernel_size L) wt"
    using sample_kernels_shaped[OF L x s pos(1,2)] by blast
  define out where "out = tabulate4 N (out_channels L) H' W'
     (\<lambda>n oc i j. conv_at (x ! n) (wt ! n ! oc) (in_channels L) (kernel_size L) H W
                    (nat (conv_padding L)) (nat (conv_stride L)) i j)"
  have gc: "grouped_conv2d (out_channels L) (kernel_size L) x wt (conv_padding L) (conv_stride L)
            = Inr out"
    unfolding out_def H' W'
    using grouped_conv2d_shaped[OF x t5 pos(1) Ci pos(3) pos(2) k] ok by simp
  have to: "is_t4 N (out_channels L) H' W' out"
    unfolding out_def by (rule is_t4_tabulate4)
  have Hp: "0 < H'" and Wp: "0 < W'" by (simp_all add: H' W' out_extent_def)
  have fw: "ModulatedConv2d_forward L x style noise g
            = NoiseInjection_forward (noise_injection L) out noise g"
    by (simp add: ModulatedConv2d_forward_def sk gc)
  have some: "\<exists>r. NoiseInjection_forward (noise_injection L) out (Some m) g = Inr r
                  \<and> is_t4 N (out_channels L) H' W' r"
    if m: "is_t4 N 1 H' W' m" for m
    unfolding NoiseInjection_forward_Some[OF to m nw pos(1) pos(2) Hp Wp]
    using is_t4_tabulate4 by blast
  show ?thesis
  proof (cases noise)
    case None
    have "is_t4 N 1 H' W' (randn g N 1 H' W')" by (simp add: randn_def is_t4_tabulate4)
    from some[OF this] show ?thesis
      using fw None NoiseInjection_forward_None[OF to pos(1) pos(2) Hp, of "noise_injection L" g]
      by simp
  next
    case (Some m)
    then show ?thesis unfolding fw using n some by simp
  qed
qed

lemma out_extent_default_padding:
  assumes "1 < s" "0 < H"
  shows "out_extent H (int (k div 2)) s k \<le> H"
proof -
  have s2: "2 \<le> nat s" using assms by simp
  have "H + 2 * (k div 2) - k \<le> H" by simp
  then have "(H + 2 * (k div 2) - k) div nat s \<le> H div 2"
    using s2 by (meson div_le_mono div_le_mono2 le_trans zero_less_numeral)
  moreover have "(H + 2 * (k div 2) - k) div nat s = 0" if "H = 1"
  proof -
    have "H + 2 * (k div 2) - k \<le> 1" using that by simp
    then show ?thesis using s2 by simp
  qed
  moreover have "H div 2 + 1 \<le> H" if "H \<noteq> 1" using that assms(2) by simp
  ultimately show ?thesis
    unfolding out_extent_def by (cases "H = 1") auto
qed

lemma ModulatedConv2d_init_wf:
  assumes "0 < in_ch" "0 < ksize" "0 \<le> out_ch" "0 \<le> style_dim"
  shows "\<exists>L. ModulatedConv2d_init in_ch out_ch ksize style_dim demod u d pad gw gm = Inr L
           \<and> wf_ModulatedConv2d L (nat style_dim)
           \<and> in_channels L = nat in_ch \<and> out_channels L = nat out_ch
           \<and> kernel_size L = nat ksize \<and> demodulate L = demod
           \<and> up L = u \<and> down L = d \<and> padding L = pad"
proof -
  have p: "0 < in_ch * ksize ^ 2" using assms by simp
  then have "\<not> in_ch * ksize ^ 2 < 0" "in_ch * ksize ^ 2 \<noteq> 0" by linarith+
  then show ?thesis
    using assms
    by (simp add: ModulatedConv2d_init_def wf_ModulatedConv2d_def randn_def
          NoiseInjection_init_def is_t4_tabulate4 is_mat_tabulate2)
qed

lemma ModulatedConv2d_init_rejects_zero:
  "in_ch = 0 \<or> ksize = 0 \<Longrightarrow>
   ModulatedConv2d_init in_ch out_ch ksize style_dim demod u d pad gw gm = Inl ZeroDivisionError"
  by (auto simp: ModulatedConv2d_init_def)

section \<open>Properties of construction\<close>

lemma get_activation_fn_supported:
  "(\<exists>f. get_activation_fn a = Inr f) = (a \<in> set supported_activations)"
  by (auto simp: get_activation_fn_def supported_activations_def)

lemma get_activation_fn_unsupported:
  "a \<notin> set supported_activations \<Longrightarrow>
   get_activation_fn a = Inl (ValueError (''Unsupported activation function: '' @ a))"
  by (simp add: get_activation_fn_def supported_activations_def)

lemma reset_parameters_unsupported:
  "w \<notin> set supported_weight_inits \<Longrightarrow>
   reset_parameters n m b w = Inl (ValueError (''Unsupported weight initialisation: '' @ w))"
  by (simp add: reset_parameters_def supported_weight_inits_def)

lemma reset_parameters_supported:
  "w \<in> set supported_weight_inits \<Longrightarrow> \<not> (b \<and> n = 0) \<Longrightarrow>
   \<not> (w = ''xavier'' \<and> n + m = 0) \<Longrightarrow> \<exists>i. reset_parameters n m b w = Inr i"
  by (auto simp: reset_parameters_def supported_weight_inits_def)

text \<open>
  C7.  Constructing a FullyConnectedLayer with an activation name or a weight_init name
  outside the supported ones fails, for every value of the other arguments, so no layer
  exists on which forward could be called.  The failure is the \<open>ValueError\<close> naming the
  unsupported option whenever the steps that run before the name check pass (a dropout
  rate of at most 1; for the activation check also the initialisation of the parameters,
  which divides by zero for a bias with zero fan-in and for xavier with both feature
  counts zero).  The supported names are exactly linear (the identity function), relu,
  leaky_relu, elu, gelu, swish for the activation and xavier, kaiming, orthogonal for
  weight_init: with these, and the earlier steps passing, construction succeeds.
\<close>

theorem FullyConnectedLayer_init_unsupported_fails:
  "(actname \<notin> set supported_activations \<or> winit \<notin> set supported_weight_inits
      \<longrightarrow> (\<exists>e. FullyConnectedLayer_init n m b actname winit d use_bn use_ln = Inl e))
   \<and> (winit \<notin> set supported_weight_inits \<and> d \<le> 1
      \<longrightarrow> FullyConnectedLayer_init n m b actname winit d use_bn use_ln
          = Inl (ValueError (''Unsupported weight initialisation: '' @ winit)))
   \<and> (winit \<in> set supported_weight_inits \<and> actname \<notin> set supported_activations
        \<and> d \<le> 1 \<and> \<not> (b \<and> n = 0) \<and> \<not> (winit = ''xavier'' \<and> n + m = 0)
      \<longrightarrow> FullyConnectedLayer_init n m b actname winit d use_bn use_ln
          = Inl (ValueError (''Unsupported activation function: '' @ actname)))
   \<and> (winit \<in> set supported_weight_inits \<and> actname \<in> set supported_activations
        \<and> d \<le> 1 \<and> \<not> (b \<and> n = 0) \<and> \<not> (winit = ''xavier'' \<and> n + m = 0)
      \<longrightarrow> (\<exists>l. FullyConnectedLayer_init n m b actname winit d use_bn use_ln = Inr l))"
proof (intro conjI impI)
  assume "actname \<notin> set supported_activations \<or> winit \<notin> set supported_weight_inits"
  then show "\<exists>e. FullyConnectedLayer_init n m b actname winit d use_bn use_ln = Inl e"
    by (auto simp: FullyConnectedLayer_init_def reset_parameters_unsupported
          get_activation_fn_unsupported split: sum.splits)
next
  assume "winit \<notin> set supported_weight_inits \<and> d \<le> 1"
  then show "FullyConnectedLayer_init n m b actname winit d use_bn use_ln
          = Inl (ValueError (''Unsupported weight initialisation: '' @ winit))"
    by (simp add: FullyConnectedLayer_init_def reset_parameters_unsupported)
next
  assume a: "winit \<in> set supported_weight_inits \<and> actname \<notin> set supported_activations
        \<and> d \<le> 1 \<and> \<not> (b \<and> n = 0) \<and> \<not> (winit = ''xavier'' \<and> n + m = 0)"
  then obtain i where "reset_parameters n m b winit = Inr i"
    using reset_parameters_supported[of winit b n m] by blast
  with a show "FullyConnectedLayer_init n m b actname winit d use_bn use_ln
          = Inl (ValueError (''Unsupported activation function: '' @ actname))"
    by (simp add: FullyConnectedLayer_init_def get_activation_fn_unsupported)
next
  assume a: "winit \<in> set supported_weight_inits \<and> actname \<in> set supported_activations
        \<and> d \<le> 1 \<and> \<not> (b \<and> n = 0) \<and> \<not> (winit = ''xavier'' \<and> n + m = 0)"
  then obtain i where i: "reset_parameters n m b winit = Inr i"
    using reset_parameters_supported[of winit b n m] by blast
  from a obtain f where "get_activation_fn actname = Inr f"
    using get_activation_fn_supported by blast
  with a i show "\<exists>l. FullyConnectedLayer_init n m b actname winit d use_bn use_ln = Inr l"
    by (simp add: FullyConnectedLayer_init_def)
qed

theorem FullyConnectedLayer_init_unsupported_fails_witness:
  "FullyConnectedLayer_init 8 16 True ''tanh'' ''xavier'' 0 False False
     = Inl (ValueError ''Unsupported activation function: tanh'')
   \<and> FullyConnectedLayer_init 8 16 True ''relu'' ''he'' 0 False False
     = Inl (ValueError ''Unsupported weight initialisation: he'')
   \<and> (\<exists>l. FullyConnectedLayer_init 8 16 True ''swish'' ''orthogonal'' 0 False False = Inr l)"
  using FullyConnectedLayer_init_unsupported_fails
          [of "''tanh''" "''xavier''" 8 16 True 0 False False]
        FullyConnectedLayer_init_unsupported_fails
          [of "''relu''" "''he''" 8 16 True 0 False False]
        FullyConnectedLayer_init_unsupported_fails
          [of "''swish''" "''orthogonal''" 8 16 True 0 False False]
  by (simp add: supported_activations_def supported_weight_inits_def)

text \<open>
  C8 (as the code has it).  Constructing a MappingNetwork with num_layers below 1 raises
  nothing: the loop over \<^verbatim>\<open>range(num_layers)\<close> runs zero times and the network is built
  with an empty stack of layers.
\<close>

theorem MappingNetwork_init_no_layers:
  "num_layers < 1 \<Longrightarrow>
   MappingNetwork_init z_dim w_dim num_layers label_dim rate
     = Inr \<lparr> embedding_rows = label_dim, embedding_cols = z_dim, net = [] \<rparr>"
  by (simp add: MappingNetwork_init_def)

theorem MappingNetwork_init_no_layers_witness:
  "(-2::int) < 1 \<and>
   MappingNetwork_init 8 16 (-2) 4 (1 / 10)
     = Inr \<lparr> embedding_rows = 4, embedding_cols = 8, net = [] \<rparr>"
  using MappingNetwork_init_no_layers [of "-2" 8 16 4 "1 / 10"] by simp

theorem MappingNetwork_init_zero_layers_succeeds:
  "MappingNetwork_init 8 16 0 4 (1 / 10)
     = Inr \<lparr> embedding_rows = 4, embedding_cols = 8, net = [] \<rparr>"
  by (simp add: MappingNetwork_init_def)

section \<open>Properties of NoiseInjection\<close>

text \<open>
  C6.  For a feature map \<open>x\<close> of shape \<open>(N, C, H, W)\<close>, a supplied noise tensor \<open>n\<close> of
  shape \<open>(N, 1, H, W)\<close> and a scale of shape \<open>(1, C, 1, 1)\<close>, NoiseInjection.forward
  returns a tensor of the shape of \<open>x\<close> whose entry at \<open>(i, c, h, w)\<close> is
  \<open>x[i,c,h,w] + weight[0,c,0,0] * n[i,0,h,w]\<close>; the result does not depend on the random
  source, so two calls with the same \<open>x\<close>, \<open>n\<close> and parameters return the same output.
\<close>

theorem NoiseInjection_forward_supplied_noise:
  assumes "is_t4 N C H W x" and "is_t4 N 1 H W n" and "is_t4 1 C 1 1 (ni_weight ni)"
    and "0 < N" "0 < C" "0 < H" "0 < W"
  shows "\<exists>out. NoiseInjection_forward ni x (Some n) g = Inr out
           \<and> is_t4 N C H W out
           \<and> (\<forall>i<N. \<forall>c<C. \<forall>h<H. \<forall>w<W.
                 out ! i ! c ! h ! w = x ! i ! c ! h ! w + ni_weight ni ! 0 ! c ! 0 ! 0 * n ! i ! 0 ! h ! w)
           \<and> NoiseInjection_forward ni x (Some n) g' = Inr out"
  using NoiseInjection_forward_Some[OF assms]
  by (simp add: is_t4_tabulate4 nth_tabulate4)

theorem NoiseInjection_forward_supplied_noise_witness:
  "\<exists>out. NoiseInjection_forward \<lparr> ni_weight = [[[[2]], [[3]]]] \<rparr>
             [[[[1, 2]], [[3, 4]]]] (Some [[[[10, 20]]]]) (\<lambda>i j k l. 0) = Inr out
         \<and> is_t4 1 2 1 2 out
         \<and> (\<forall>i<1. \<forall>c<2. \<forall>h<1. \<forall>w<2.
               out ! i ! c ! h ! w = [[[[1, 2]], [[3, 4]]]] ! i ! c ! h ! w
                 + [[[[2]], [[3]]]] ! 0 ! c ! 0 ! 0 * [[[[10, 20]]]] ! i ! 0 ! h ! w)
         \<and> NoiseInjection_forward \<lparr> ni_weight = [[[[2]], [[3]]]] \<rparr>
             [[[[1, 2]], [[3, 4]]]] (Some [[[[10, 20]]]]) (\<lambda>i j k l. 1) = Inr out"
  using NoiseInjection_forward_supplied_noise
          [of 1 2 1 2 "[[[[1, 2]], [[3, 4]]]]" "[[[[10, 20]]]]" "\<lparr> ni_weight = [[[[2]], [[3]]]] \<rparr>"
              "\<lambda>i j k l. 0" "\<lambda>i j k l. 1"]
  by (simp add: is_t4_def is_t3_def is_mat_def is_vec_def)




section \<open>Properties of ModulatedConv2d\<close>

text \<open>
  C5 (as the code has it).  The modulation projection has no bias, so an all-zero style
  projects to an all-zero per-channel scale, and the modulated per-sample kernel (before
  demodulation) is the base kernel times the fixed constant times zero: every entry of it
  is zero, for every base kernel.  It is not the base kernel scaled by the fixed constant.
\<close>

theorem modulated_weight_zero_style:
  assumes L: "wf_ModulatedConv2d L sd"
    and x: "is_t4 N (in_channels L) H W x"
    and pos: "0 < N" "0 < out_channels L"
  shows "modulated_weight L x (replicate N (replicate sd 0)) =
     Inr (replicate N (replicate (out_channels L) (replicate (in_channels L)
            (replicate (kernel_size L) (replicate (kernel_size L) 0)))))"
proof -
  have s: "is_mat N sd (replicate N (replicate sd (0::real)))"
    by (simp add: is_mat_def is_vec_def list_all_length)
  have "tabulate5 N (out_channels L) (in_channels L) (kernel_size L) (kernel_size L)
          (\<lambda>n oc c u v. scale L * weight L ! oc ! c ! u ! v
                           * style_proj L sd (replicate N (replicate sd 0)) n c)
        = tabulate5 N (out_channels L) (in_channels L) (kernel_size L) (kernel_size L)
          (\<lambda>n oc c u v. 0)"
    by (rule tabulate5_cong) (simp add: style_proj_zero)
  then show ?thesis
    using modulated_weight_shaped[OF L x s pos] by (simp add: tabulate5_const)
qed

theorem modulated_weight_zero_style_witness:
  "modulated_weight
     \<lparr> in_channels = 1, out_channels = 1, kernel_size = 1, demodulate = True,
       up = 1, down = 1, padding = 0, scale = 1, weight = [[[[3]]]], modulation = [[5, 7]],
       noise_injection = NoiseInjection_init 1 \<rparr>
     [[[[1]]]] [[0, 0]] = Inr [[[[[0]]]]]"
  using modulated_weight_zero_style
    [of "\<lparr> in_channels = 1, out_channels = 1, kernel_size = 1, demodulate = True,
       up = 1, down = 1, padding = 0, scale = 1, weight = [[[[3]]]], modulation = [[5, 7]],
       noise_injection = NoiseInjection_init 1 \<rparr>" 2 1 1 1 "[[[[1]]]]"]
  by (simp add: wf_ModulatedConv2d_def NoiseInjection_init_def tabulate4_def tabulate2_def
        is_t4_def is_t3_def is_mat_def is_vec_def numeral_2_eq_2)

theorem modulated_weight_zero_style_not_scaled_base:
  "modulated_weight
     \<lparr> in_channels = 1, out_channels = 1, kernel_size = 1, demodulate = True,
       up = 1, down = 1, padding = 0, scale = 1, weight = [[[[3]]]], modulation = [[5, 7]],
       noise_injection = NoiseInjection_init 1 \<rparr>
     [[[[1]]]] [[0, 0]] = Inr [[[[[0]]]]]
   \<and> scalar_mul5 1 (unsqueeze0 [[[[3]]]]) = [[[[[3]]]]]"
  by (simp add: modulated_weight_def linear_def view4_def flat2_def broadcast5_def
        scalar_mul5_def unsqueeze0_def unsqueeze1_def dim0_def dim1_def dim2_def dim3_def
        dim4_def bdim_def bidx_def tabulate2_def tabulate4_def tabulate5_def)

text \<open>
  C9 (as the code has it).  \<^verbatim>\<open>forward\<close> has no check of its own on the two batch sizes;
  the only check is the count of entries in \<^verbatim>\<open>view(batch, in_channels, 1, 1)\<close> of the
  projected style.  For a feature map with the layer's number of input channels, a style
  batch of a different size makes that view (or, when the style dimension is wrong too,
  the projection before it) fail with a shape error, whatever the noise.  When the
  feature map has another number of channels the counts can agree and the call returns a
  result: a layer with one input channel accepts a feature map of batch 2 with 3 channels
  together with a style batch of 6.
\<close>

theorem ModulatedConv2d_forward_batch_mismatch:
  assumes L: "wf_ModulatedConv2d L sd"
    and x: "is_t4 N (in_channels L) H W x"
    and s: "is_mat Ns sd' style"
    and ne: "Ns \<noteq> N"
    and pos: "0 < N" "0 < Ns"
  shows "ModulatedConv2d_forward L x style noise g = Inl ShapeError"
proof -
  have Ci: "0 < in_channels L" and M: "is_mat (in_channels L) sd (modulation L)"
    using L by (simp_all add: wf_ModulatedConv2d_def)
  have "modulated_weight L x style = Inl ShapeError"
  proof (cases "sd' = sd")
    case False
    then show ?thesis
      using linear_mismatch[OF s M pos(2) Ci] by (simp add: modulated_weight_def)
  next
    case True
    let ?m = "tabulate2 Ns (in_channels L)
                (\<lambda>n c. sum_list (map (\<lambda>d. style ! n ! d * modulation L ! c ! d) [0 ..< sd]))"
    have lin: "linear style (modulation L) = Inr ?m"
      using linear_shaped[OF s[unfolded True] M pos(2) Ci] .
    have "length (flat2 ?m) = Ns * in_channels L"
      by (rule flat2_length) (rule is_mat_tabulate2)
    moreover have "Ns * in_channels L \<noteq> N * in_channels L * 1 * 1"
      using ne Ci by simp
    ultimately have "view4 (flat2 ?m) N (in_channels L) 1 1 = Inl ShapeError"
      by (intro view4_mismatch) simp
    then show ?thesis
      using lin pos(1) Ci by (simp add: modulated_weight_def is_t4_dim0[OF x] is_t4_dim1[OF x])
  qed
  then show ?thesis
    by (simp add: ModulatedConv2d_forward_def sample_kernels_def)
qed

theorem ModulatedConv2d_forward_batch_mismatch_witness:
  "ModulatedConv2d_forward
     \<lparr> in_channels = 1, out_channels = 1, kernel_size = 1, demodulate = True,
       up = 1, down = 1, padding = 0, scale = 1, weight = [[[[1]]]], modulation = [[1]],
       noise_injection = NoiseInjection_init 1 \<rparr>
     [[[[1]]], [[[1]]]] [[1], [1], [1]] None zero_draws = Inl ShapeError"
  using ModulatedConv2d_forward_batch_mismatch
    [of "\<lparr> in_channels = 1, out_channels = 1, kernel_size = 1, demodulate = True,
       up = 1, down = 1, padding = 0, scale = 1, weight = [[[[1]]]], modulation = [[1]],
       noise_injection = NoiseInjection_init 1 \<rparr>" 1 2 1 1 "[[[[1]]], [[[1]]]]" 3 1
       "[[1], [1], [1]]" None zero_draws]
  by (simp add: wf_ModulatedConv2d_def NoiseInjection_init_def tabulate4_def tabulate2_def
        is_t4_def is_t3_def is_mat_def is_vec_def)

theorem ModulatedConv2d_forward_batch_mismatch_accepted:
  "ModulatedConv2d_forward
     \<lparr> in_channels = 1, out_channels = 1, kernel_size = 1, demodulate = False,
       up = 1, down = 1, padding = 0, scale = 1, weight = [[[[1]]]], modulation = [[1]],
       noise_injection = NoiseInjection_init 1 \<rparr>
     [[[[1]], [[1]], [[1]]], [[[1]], [[1]], [[1]]]]
     [[1], [1], [1], [1], [1], [1]] None zero_draws
   = Inr [[[[3]]], [[[3]]]]
   \<and> dim0 [[[[1::real]], [[1]], [[1]]], [[[1]], [[1]], [[1]]]] = 2
   \<and> dim0 [[1::real], [1], [1], [1], [1], [1]] = 6"
  by (simp add: eval_defs)

text \<open>
  C2 (as the code has it).  For every batch size \<open>N\<close> and every style batch, with
  demodulate enabled, the sum of squares over \<open>(C_in, k, k)\<close> of each (sample, output
  channel) slice of the kernel after demodulation is, in exact arithmetic,
  \<open>E / (E + 1e-8)\<close>, where \<open>E\<close> is the sum of squares of that slice of the modulated kernel
  before demodulation.  It is at most 1, within \<open>1e-8 / E\<close> of 1 when \<open>E\<close> is positive, and 0
  when \<open>E\<close> is 0, as for an all-zero style: then it is not close to 1.
\<close>

theorem demodulated_kernel_energy:
  assumes L: "wf_ModulatedConv2d L sd" and dm: "demodulate L"
    and x: "is_t4 N (in_channels L) H W x"
    and s: "is_mat N sd style"
    and pos: "0 < N" "0 < out_channels L"
  shows "\<exists>wt wt'. modulated_weight L x style = Inr wt
           \<and> sample_kernels L x style = Inr wt'
           \<and> (\<forall>n<N. \<forall>oc<out_channels L.
                 sumsq (wt' ! n ! oc) = sumsq (wt ! n ! oc) / (sumsq (wt ! n ! oc) + 1 / 10 ^ 8)
                 \<and> sumsq (wt' ! n ! oc) \<le> 1
                 \<and> (0 < sumsq (wt ! n ! oc)
                      \<longrightarrow> 1 - (1 / 10 ^ 8) / sumsq (wt ! n ! oc) \<le> sumsq (wt' ! n ! oc))
                 \<and> (sumsq (wt ! n ! oc) = 0 \<longrightarrow> sumsq (wt' ! n ! oc) = 0))"
proof -
  let ?Ci = "in_channels L" and ?Co = "out_channels L" and ?k = "kernel_size L"
  let ?wt = "tabulate5 N ?Co ?Ci ?k ?k
            (\<lambda>n oc c u v. scale L * weight L ! oc ! c ! u ! v * style_proj L sd style n c)"
  let ?D = "\<lambda>n oc. rsqrt (sumsq (?wt ! n ! oc) + 1 / 10 ^ 8)"
  let ?wt' = "tabulate5 N ?Co ?Ci ?k ?k (\<lambda>n oc c u v. ?wt ! n ! oc ! c ! u ! v * ?D n oc)"
  have Ci: "0 < ?Ci" and k: "0 < ?k" using L by (simp_all add: wf_ModulatedConv2d_def)
  have mw: "modulated_weight L x style = Inr ?wt"
    using modulated_weight_shaped[OF L x s pos] .
  have t5: "is_t5 N ?Co ?Ci ?k ?k ?wt" by (rule is_t5_tabulate5)
  have "demodulated L N ?wt = Inr ?wt'"
    using demodulated_shaped[OF t5 refl pos Ci k] .
  then have sk: "sample_kernels L x style = Inr ?wt'"
    using mw dm by (simp add: sample_kernels_def is_t4_dim0[OF x])
  have en: "sumsq (?wt' ! n ! oc) = sumsq (?wt ! n ! oc) / (sumsq (?wt ! n ! oc) + 1 / 10 ^ 8)
            \<and> sumsq (?wt' ! n ! oc) \<le> 1
            \<and> (0 < sumsq (?wt ! n ! oc)
                 \<longrightarrow> 1 - (1 / 10 ^ 8) / sumsq (?wt ! n ! oc) \<le> sumsq (?wt' ! n ! oc))
            \<and> (sumsq (?wt ! n ! oc) = 0 \<longrightarrow> sumsq (?wt' ! n ! oc) = 0)"
    if b: "n < N" "oc < ?Co" for n oc
  proof -
    let ?E = "sumsq (?wt ! n ! oc)"
    have E: "0 \<le> ?E" by (rule sumsq_nonneg)
    then have p: "0 < ?E + 1 / 10 ^ 8" by simp
    have "sumsq (?wt' ! n ! oc) = (?D n oc) ^ 2 * ?E"
      using tabulate5_slice[OF t5 b, of ?D] by (simp add: sumsq_scaled)
    also have "\<dots> = ?E / (?E + 1 / 10 ^ 8)"
      using rsqrt_squared[OF p] by simp
    finally have eq: "sumsq (?wt' ! n ! oc) = ?E / (?E + 1 / 10 ^ 8)" .
    have le: "?E / (?E + 1 / 10 ^ 8) \<le> 1" using p by simp
    have lo: "1 - (1 / 10 ^ 8) / ?E \<le> ?E / (?E + 1 / 10 ^ 8)" if "0 < ?E"
    proof -
      have "?E / (?E + 1 / 10 ^ 8) = 1 - (1 / 10 ^ 8) / (?E + 1 / 10 ^ 8)"
        using p by (simp add: field_simps)
      moreover have "(1 / 10 ^ 8) / (?E + 1 / 10 ^ 8) \<le> (1 / 10 ^ 8) / ?E"
        using that by (intro divide_left_mono) simp_all
      ultimately show ?thesis by linarith
    qed
    show ?thesis unfolding eq using le lo by simp
  qed
  show ?thesis using mw sk en by blast
qed

theorem demodulated_kernel_energy_witness:
  "\<exists>wt wt'.
     modulated_weight
       \<lparr> in_channels = 1, out_channels = 1, kernel_size = 1, demodulate = True,
         up = 1, down = 1, padding = 0, scale = 1, weight = [[[[3]]]], modulation = [[5, 7]],
         noise_injection = NoiseInjection_init 1 \<rparr>
       [[[[1]]]] [[1, 1]] = Inr wt
     \<and> sample_kernels
       \<lparr> in_channels = 1, out_channels = 1, kernel_size = 1, demodulate = True,
         up = 1, down = 1, padding = 0, scale = 1, weight = [[[[3]]]], modulation = [[5, 7]],
         noise_injection = NoiseInjection_init 1 \<rparr>
       [[[[1]]]] [[1, 1]] = Inr wt'
     \<and> sumsq (wt' ! 0 ! 0) = sumsq (wt ! 0 ! 0) / (sumsq (wt ! 0 ! 0) + 1 / 10 ^ 8)
     \<and> sumsq (wt' ! 0 ! 0) \<le> 1
     \<and> (0 < sumsq (wt ! 0 ! 0)
          \<longrightarrow> 1 - (1 / 10 ^ 8) / sumsq (wt ! 0 ! 0) \<le> sumsq (wt' ! 0 ! 0))
     \<and> (sumsq (wt ! 0 ! 0) = 0 \<longrightarrow> sumsq (wt' ! 0 ! 0) = 0)"
  using demodulated_kernel_energy
    [of "\<lparr> in_channels = 1, out_channels = 1, kernel_size = 1, demodulate = True,
         up = 1, down = 1, padding = 0, scale = 1, weight = [[[[3]]]], modulation = [[5, 7]],
         noise_injection = NoiseInjection_init 1 \<rparr>" 2 1 1 1 "[[[[1]]]]" "[[1, 1]]"]
  by (simp add: wf_ModulatedConv2d_def NoiseInjection_init_def tabulate4_def tabulate2_def
        is_t4_def is_t3_def is_mat_def is_vec_def numeral_2_eq_2)

theorem demodulated_kernel_energy_zero_style:
  "sample_kernels
     \<lparr> in_channels = 1, out_channels = 1, kernel_size = 1, demodulate = True,
       up = 1, down = 1, padding = 0, scale = 1, weight = [[[[3]]]], modulation = [[5, 7]],
       noise_injection = NoiseInjection_init 1 \<rparr>
     [[[[1]]]] [[0, 0]] = Inr [[[[[0]]]]]
   \<and> sumsq ([[[[[0]]]]] ! 0 ! 0) = 0"
  by (simp add: eval_defs demodulated_def pow2_def sum234_def sumsq_def)

text \<open>
  C1.  For a batch of \<open>N\<close> samples, folding the per-sample kernels \<open>(N, C_out, C_in, k, k)\<close>
  into \<open>(N * C_out, C_in, k, k)\<close> and the feature map \<open>(N, C_in, H, W)\<close> into
  \<open>(1, N * C_in, H, W)\<close>, running one convolution with \<open>groups = N\<close> and unfolding the
  result to \<open>(N, C_out, H', W')\<close> gives the same result as convolving each sample on its
  own with its own kernel slice: the same output when padding, stride and extents are
  accepted, the same rejection otherwise.
\<close>

theorem grouped_conv2d_is_per_sample:
  assumes x: "is_t4 N Ci H W x" and wt: "is_t5 N Co Ci k k wt"
    and pos: "0 < N" "0 < Ci" "0 < H" "0 < Co" "0 < k"
  shows "grouped_conv2d Co k x wt p s = per_sample_conv2d x wt p s"
proof (cases "conv_ok p s H W k k")
  case False
  then show ?thesis
    using grouped_conv2d_shaped[OF x wt pos, of p s]
          per_sample_conv2d_rejects[OF x wt pos(1,2,3,4,5) False]
    by simp
next
  case True
  have lx: "length x = N" and lw: "length wt = N"
    using x wt by (simp_all add: is_t4_def is_t5_def)
  have "map (\<lambda>(xn, wn). tabulate4 1 Co (out_extent H p s k) (out_extent W p s k)
                  (\<lambda>b oc i j. conv_at xn (wn ! oc) Ci k H W (nat p) (nat s) i j) ! 0)
              (zip x wt)
        = tabulate4 N Co (out_extent H p s k) (out_extent W p s k)
                  (\<lambda>n oc i j. conv_at (x ! n) (wt ! n ! oc) Ci k H W (nat p) (nat s) i j)"
    unfolding map_zip_nth[OF lx lw] by (simp add: tabulate4_def)
  then show ?thesis
    using grouped_conv2d_shaped[OF x wt pos, of p s]
          per_sample_conv2d_shaped[OF x wt pos(2,3,4,5) True]
    by (simp add: True)
qed

theorem grouped_conv2d_is_per_sample_witness:
  "grouped_conv2d 1 1 [[[[1, 2]]], [[[3, 4]]]] [[[[[5]]]], [[[[6]]]]] 0 1
     = per_sample_conv2d [[[[1, 2]]], [[[3, 4]]]] [[[[[5]]]], [[[[6]]]]] 0 1
   \<and> per_sample_conv2d [[[[1, 2]]], [[[3, 4]]]] [[[[[5]]]], [[[[6]]]]] 0 1
     = Inr [[[[5, 10]]], [[[18, 24]]]]"
  using grouped_conv2d_is_per_sample
          [of 2 1 1 2 "[[[[1, 2]]], [[[3, 4]]]]" 1 1 "[[[[[5]]]], [[[[6]]]]]" 0 1]
  by (simp add: is_t5_def is_t4_def is_t3_def is_mat_def is_vec_def eval_defs)

text \<open>
  C3.  A ModulatedConv2d with in_channels 32, out_channels 64, kernel_size 3, a style of
  dimension 16, demodulate enabled, up 1, down 1 and the default padding, called on a
  feature map of shape \<open>(2, 32, 16, 16)\<close> and a style batch of shape \<open>(2, 16)\<close> (the noise
  omitted, or of shape \<open>(2, 1, 16, 16)\<close>), returns a feature map of shape \<open>(2, 64, 16, 16)\<close>.
\<close>

theorem ModulatedConv2d_forward_shape_2_64_16_16:
  assumes "wf_ModulatedConv2d L 16"
    and "in_channels L = 32" "out_channels L = 64" "kernel_size L = 3"
    and "demodulate L" "up L = 1" "down L = 1" "padding L = 0"
    and "is_t4 2 32 16 16 x" and "is_mat 2 16 style"
    and "case noise of None \<Rightarrow> True | Some n \<Rightarrow> is_t4 2 1 16 16 n"
  shows "\<exists>out. ModulatedConv2d_forward L x style noise g = Inr out \<and> is_t4 2 64 16 16 out"
proof -
  have st: "conv_stride L = 1" and pd: "conv_padding L = 1"
    using assms by (simp_all add: conv_stride_def conv_padding_def)
  have ok: "conv_ok (conv_padding L) (conv_stride L) 16 16 (kernel_size L) (kernel_size L)"
    unfolding st pd using assms(4) by (simp add: conv_ok_def)
  have e: "16 = out_extent 16 (conv_padding L) (conv_stride L) (kernel_size L)"
    unfolding st pd using assms(4) by (simp add: out_extent_def)
  have x: "is_t4 2 (in_channels L) 16 16 x" using assms by simp
  show ?thesis
    using ModulatedConv2d_forward_shaped[OF assms(1) x assms(10) _ _ _ ok e e assms(11)] assms(3)
    by simp
qed

theorem ModulatedConv2d_forward_shape_2_64_16_16_witness:
  "\<exists>out. ModulatedConv2d_forward
           \<lparr> in_channels = 32, out_channels = 64, kernel_size = 3, demodulate = True,
             up = 1, down = 1, padding = 0, scale = 1 / sqrt 288,
             weight = randn zero_draws 64 32 3 3, modulation = tabulate2 32 16 (zero_draws 0 0),
             noise_injection = NoiseInjection_init 64 \<rparr>
           (randn zero_draws 2 32 16 16) (tabulate2 2 16 (zero_draws 0 0)) None zero_draws = Inr out
         \<and> is_t4 2 64 16 16 out"
  using ModulatedConv2d_forward_shape_2_64_16_16
    [of "\<lparr> in_channels = 32, out_channels = 64, kernel_size = 3, demodulate = True,
             up = 1, down = 1, padding = 0, scale = 1 / sqrt 288,
             weight = randn zero_draws 64 32 3 3, modulation = tabulate2 32 16 (zero_draws 0 0),
             noise_injection = NoiseInjection_init 64 \<rparr>"
        "randn zero_draws 2 32 16 16" "tabulate2 2 16 (zero_draws 0 0)" None zero_draws]
  by (simp add: wf_ModulatedConv2d_def randn_def NoiseInjection_init_def
        is_t4_tabulate4 is_mat_tabulate2)

text \<open>
  C4 (what the code does).  With \<open>up = 2\<close> the stride \<^verbatim>\<open>int(1 / (1 / up))\<close> is 2, and it is
  passed to an ordinary strided convolution.  With the default padding the call succeeds
  and the output extents are \<open>(H + 2 (k div 2) - k) div 2 + 1\<close> and the same for \<open>W\<close>: never
  more than \<open>H\<close> and \<open>W\<close>, so the feature map is subsampled, not upsampled to twice its
  size.  A 16 by 16 map with a kernel of 3 comes out 8 by 8.
\<close>

theorem ModulatedConv2d_forward_up_does_not_upsample:
  assumes L: "wf_ModulatedConv2d L sd"
    and up: "up L = 2" and pd: "padding L = 0"
    and x: "is_t4 N (in_channels L) H W x"
    and s: "is_mat N sd style"
    and pos: "0 < N" "0 < out_channels L" "0 < H" "0 < W"
    and H': "H' = out_extent H (int (kernel_size L div 2)) 2 (kernel_size L)"
    and W': "W' = out_extent W (int (kernel_size L div 2)) 2 (kernel_size L)"
  shows "\<exists>out. ModulatedConv2d_forward L x style None g = Inr out
           \<and> is_t4 N (out_channels L) H' W' out \<and> H' \<le> H \<and> W' \<le> W"
proof -
  have st: "conv_stride L = 2" using up by (rule conv_stride_up_2)
  have cp: "conv_padding L = int (kernel_size L div 2)" using pd by (simp add: conv_padding_def)
  have kk: "kernel_size L \<le> 2 * (kernel_size L div 2) + 1" by presburger
  have ok: "conv_ok (conv_padding L) (conv_stride L) H W (kernel_size L) (kernel_size L)"
    unfolding st cp using pos kk by (simp add: conv_ok_def)
  have "\<exists>out. ModulatedConv2d_forward L x style None g = Inr out
           \<and> is_t4 N (out_channels L) H' W' out"
    by (rule ModulatedConv2d_forward_shaped[OF L x s pos(1,2,3) ok])
       (simp_all add: H' W' st cp)
  moreover have "H' \<le> H"
    unfolding H' using pos(3) by (intro out_extent_default_padding) simp_all
  moreover have "W' \<le> W"
    unfolding W' using pos(4) by (intro out_extent_default_padding) simp_all
  ultimately show ?thesis by blast
qed

theorem ModulatedConv2d_forward_up_does_not_upsample_witness:
  "\<exists>out. ModulatedConv2d_forward
           \<lparr> in_channels = 1, out_channels = 1, kernel_size = 3, demodulate = True,
             up = 2, down = 1, padding = 0, scale = 1 / 3,
             weight = randn zero_draws 1 1 3 3, modulation = [[1]],
             noise_injection = NoiseInjection_init 1 \<rparr>
           (randn zero_draws 1 1 16 16) [[1]] None zero_draws = Inr out
         \<and> is_t4 1 1 8 8 out"
proof -
  let ?L = "\<lparr> in_channels = 1, out_channels = 1, kernel_size = 3, demodulate = True,
             up = 2, down = 1, padding = 0, scale = 1 / 3,
             weight = randn zero_draws 1 1 3 3, modulation = [[1]],
             noise_injection = NoiseInjection_init 1 \<rparr>"
  have wf: "wf_ModulatedConv2d ?L 1"
    by (simp add: wf_ModulatedConv2d_def NoiseInjection_init_def randn_def is_t4_tabulate4
          is_mat_def is_vec_def)
  have x: "is_t4 1 (in_channels ?L) 16 16 (randn zero_draws 1 1 16 16)"
    by (simp add: randn_def is_t4_tabulate4)
  have s: "is_mat 1 1 [[1::real]]" by (simp add: is_mat_def is_vec_def)
  have e: "8 = out_extent 16 (int (kernel_size ?L div 2)) 2 (kernel_size ?L)"
    by (simp add: out_extent_def)
  have "\<exists>out. ModulatedConv2d_forward ?L (randn zero_draws 1 1 16 16) [[1]] None zero_draws = Inr out
           \<and> is_t4 1 (out_channels ?L) 8 8 out \<and> 8 \<le> (16::nat) \<and> 8 \<le> (16::nat)"
    by (rule ModulatedConv2d_forward_up_does_not_upsample[OF wf _ _ x s _ _ _ _ e e]) simp_all
  then show ?thesis by simp
qed

text \<open>
  The same on a 2 by 2 map with a kernel of 1 and \<open>up = 2\<close>: the output is the single
  entry at the top left, not a 4 by 4 map.
\<close>

theorem ModulatedConv2d_forward_up_2_halves:
  "ModulatedConv2d_forward
      \<lparr> in_channels = 1, out_channels = 1, kernel_size = 1, demodulate = False,
        up = 2, down = 1, padding = 0, scale = 1,
        weight = [[[[1]]]], modulation = [[1]],
        noise_injection = NoiseInjection_init 1 \<rparr>
      [[[[1, 2], [3, 4]]]] [[1]] None zero_draws
   = Inr [[[[1]]]]"
  by (simp add: eval_defs round_double_half round_double_two)

end
